theory Spec2Isabelle
  imports
    Complex_Main
    "HOL-Library.AList"
    "HOL-Library.Char_ord"
    "HOL-Library.List_Lexorder"
    "HOL-Library.Sublist"
begin

section \<open>The embedding of openmetrics-tui\<close>

text \<open>
  The development follows \<^verbatim>\<open>store.go\<close> (the series store, the signature and the delta
  projection) and the latest revision of \<^verbatim>\<open>main.go\<close> (filtering, table layout, the
  Bubble Tea \<^verbatim>\<open>Update\<close> function and the start-up checks of \<^verbatim>\<open>main\<close>).

  Conventions.
  \<^item> A Go \<^verbatim>\<open>map[string]T\<close> is an association list \<open>(string \<times> T) list\<close>; a key is
    read with \<open>map_of\<close> and written with \<open>AList.update\<close>, which replaces the
    entry of an existing key and adds a new key otherwise. The order of the list
    stands for the iteration order of the Go map, which the language leaves open.
  \<^item> A Go \<^verbatim>\<open>string\<close> is a \<open>string\<close>: a list of bytes. \<^verbatim>\<open>sort.Strings\<close> is \<open>sort\<close> for
    the lexicographic order on byte lists.
  \<^item> Functions of the Go standard library and of third-party packages
    (\<^verbatim>\<open>fmt.Sprintf\<close>, \<^verbatim>\<open>regexp\<close>, \<^verbatim>\<open>lipgloss\<close>, the viewport) are parameters of the
    definitions that call them.
\<close>

subsection \<open>Samples\<close>

text \<open>
  A \<^verbatim>\<open>float64\<close> sample is modelled by the value it denotes: not-a-number, one of
  the two infinities, or a real number. The rounding of a finite result, and its
  overflow to an infinity, are not modelled.
  \<open>isNaN\<close> is \<^verbatim>\<open>math.IsNaN\<close> and \<open>fsub a b\<close> is the Go expression \<^verbatim>\<open>a - b\<close>.
\<close>

datatype float64 = NaN | PInf | NInf | Fin real

fun isNaN :: "float64 \<Rightarrow> bool" where
  "isNaN NaN = True"
| "isNaN _ = False"

fun fsub :: "float64 \<Rightarrow> float64 \<Rightarrow> float64" where
  "fsub NaN _ = NaN"
| "fsub _ NaN = NaN"
| "fsub (Fin a) (Fin b) = Fin (a - b)"
| "fsub (Fin a) PInf = NInf"
| "fsub (Fin a) NInf = PInf"
| "fsub PInf PInf = NaN"
| "fsub PInf _ = PInf"
| "fsub NInf NInf = NaN"
| "fsub NInf _ = NInf"

subsection \<open>Series and store (store.go)\<close>

type_synonym labels = "(string \<times> string) list"

record MetricSeries =
  Name :: string
  Labels :: labels
  Values :: "float64 list"

record Store =
  Metrics :: "(string \<times> MetricSeries) list"
  HistoryLimit :: int

definition NewStore :: "int \<Rightarrow> Store" where
  "NewStore historyLimit = \<lparr>Metrics = [], HistoryLimit = historyLimit\<rparr>"

text \<open>Reading a Go map of strings at a key that is absent gives the empty string.\<close>

definition mapGet :: "labels \<Rightarrow> string \<Rightarrow> string" where
  "mapGet m k = (case map_of m k of Some v \<Rightarrow> v | None \<Rightarrow> [])"

subsection \<open>ValuesWithDeltas\<close>

text \<open>
  The first loop of \<^verbatim>\<open>ValuesWithDeltas\<close> writes \<open>res[i]\<close> for \<open>i = 0, ..., lastIdx - 1\<close>;
  the second one scans the same indices for the first and the last sample that is not
  NaN, both \<open>-1\<close> while none is found.
\<close>

definition deltaStep :: "float64 list \<Rightarrow> nat \<Rightarrow> float64 list \<Rightarrow> float64 list" where
  "deltaStep vals i res =
     (let curr = vals ! i; next = vals ! (i + 1)
      in if isNaN curr \<or> isNaN next then res[i := NaN] else res[i := fsub next curr])"

definition histStep :: "float64 list \<Rightarrow> nat \<Rightarrow> int \<times> int \<Rightarrow> int \<times> int" where
  "histStep vals i st =
     (case st of (firstHistIdx, lastHistIdx) \<Rightarrow>
        if \<not> isNaN (vals ! i)
        then ((if firstHistIdx = - 1 then int i else firstHistIdx), int i)
        else (firstHistIdx, lastHistIdx))"

definition ValuesWithDeltas :: "MetricSeries \<Rightarrow> string \<Rightarrow> float64 list" where
  "ValuesWithDeltas s mode =
     (if mode = ''off'' then Values s
      else if length (Values s) = 0 then []
      else
        let res0 = replicate (length (Values s)) (Fin 0);
            lastIdx = length (Values s) - 1;
            res = fold (deltaStep (Values s)) [0..<lastIdx] res0
        in if mode = ''view''
           then (case fold (histStep (Values s)) [0..<lastIdx] (- 1, - 1) of
                   (firstHistIdx, lastHistIdx) \<Rightarrow>
                     if firstHistIdx \<noteq> - 1 \<and> lastHistIdx \<noteq> - 1 \<and> firstHistIdx \<noteq> lastHistIdx
                     then res[lastIdx := fsub (Values s ! nat lastHistIdx) (Values s ! nat firstHistIdx)]
                     else res[lastIdx := NaN])
           else res[lastIdx := Values s ! lastIdx])"

text \<open>
  The two indices the specification names for the mode \<^verbatim>\<open>view\<close>: the earliest and the
  latest index before the last one whose sample is not NaN.
\<close>

definition firstHist :: "float64 list \<Rightarrow> nat option" where
  "firstHist vals = find (\<lambda>i. \<not> isNaN (vals ! i)) [0..<length vals - 1]"

definition lastHist :: "float64 list \<Rightarrow> nat option" where
  "lastHist vals = find (\<lambda>i. \<not> isNaN (vals ! i)) (rev [0..<length vals - 1])"

subsection \<open>GenerateSignature\<close>

text \<open>
  \<open>q\<close> is \<^verbatim>\<open>fmt.Sprintf("%q", v)\<close>, the quoting of the Go standard library.
  \<open>writeLabels\<close> is the loop over the sorted keys, with the loop index \<open>i\<close> and the
  string builder \<open>sb\<close>.
\<close>

fun writeLabels :: "(string \<Rightarrow> string) \<Rightarrow> labels \<Rightarrow> nat \<Rightarrow> string list \<Rightarrow> string \<Rightarrow> string" where
  "writeLabels q labels i [] sb = sb"
| "writeLabels q labels i (k # keys) sb =
     writeLabels q labels (Suc i) keys
       ((if i > 0 then sb @ '','' else sb) @ (k @ ''='' @ q (mapGet labels k)))"

definition GenerateSignature :: "(string \<Rightarrow> string) \<Rightarrow> string \<Rightarrow> labels \<Rightarrow> string" where
  "GenerateSignature q name labels =
     (let keys = sort (map fst labels)
      in writeLabels q labels 0 keys (name @ ''{'') @ ''}'')"

subsection \<open>Updating the store\<close>

text \<open>
  The part of the Prometheus client model that \<^verbatim>\<open>UpdateFromFamilies\<close> reads: a family
  has a name and metrics; a metric has label pairs and at most one of a gauge, a
  counter and an untyped value (\<open>None\<close> is the nil pointer, \<open>Some v\<close> a value whose
  \<^verbatim>\<open>GetValue()\<close> is \<open>v\<close>). The families are listed in the order in which the loop
  visits them.
\<close>

record Metric =
  Label :: "(string \<times> string) list"
  Gauge :: "float64 option"
  Counter :: "float64 option"
  Untyped :: "float64 option"

record MetricFamily =
  FamilyName :: string
  FamilyMetric :: "Metric list"

definition appendValue :: "int \<Rightarrow> MetricSeries \<Rightarrow> float64 \<Rightarrow> MetricSeries" where
  "appendValue historyLimit series v =
     (let vs = Values series @ [v]
      in series\<lparr>Values := (if int (length vs) > historyLimit then tl vs else vs)\<rparr>)"

text \<open>
  A run-time panic is the result \<open>None\<close>. \<^verbatim>\<open>updateMetric\<close> creates a series with
  \<^verbatim>\<open>make([]float64, 0, s.HistoryLimit)\<close>, which panics when the capacity is negative.
  (A capacity beyond what the runtime can allocate is a matter of memory and outside
  this model.)
\<close>

definition updateMetric :: "Store \<Rightarrow> string \<Rightarrow> string \<Rightarrow> labels \<Rightarrow> float64 \<Rightarrow> Store option" where
  "updateMetric s sig name labels v =
     (case map_of (Metrics s) sig of
        Some series \<Rightarrow>
          Some (s\<lparr>Metrics := AList.update sig (appendValue (HistoryLimit s) series v) (Metrics s)\<rparr>)
      | None \<Rightarrow>
          if HistoryLimit s < 0 then None
          else Some (s\<lparr>Metrics :=
                 AList.update sig
                   (appendValue (HistoryLimit s) \<lparr>Name = name, Labels = labels, Values = []\<rparr> v)
                   (Metrics s)\<rparr>))"

text \<open>A loop whose body may panic: the loop stops at the first panic.\<close>

fun foldOpt :: "('s \<Rightarrow> 'a \<Rightarrow> 's option) \<Rightarrow> 's \<Rightarrow> 'a list \<Rightarrow> 's option" where
  "foldOpt f st [] = Some st"
| "foldOpt f st (x # xs) = (case f st x of None \<Rightarrow> None | Some st' \<Rightarrow> foldOpt f st' xs)"

text \<open>The label map of a metric: later pairs overwrite earlier ones of the same name.\<close>

definition metricLabels :: "Metric \<Rightarrow> labels" where
  "metricLabels metric = foldl (\<lambda>m p. AList.update (fst p) (snd p) m) [] (Label metric)"

text \<open>The value read from a metric; \<open>None\<close> is the \<^verbatim>\<open>continue\<close> for the complex types.\<close>

definition metricValue :: "Metric \<Rightarrow> float64 option" where
  "metricValue metric =
     (if Gauge metric \<noteq> None then Gauge metric
      else if Counter metric \<noteq> None then Counter metric
      else if Untyped metric \<noteq> None then Untyped metric
      else None)"

text \<open>
  The body of the inner loop, on the store and the set \<^verbatim>\<open>seenSignatures\<close>; the inner loop;
  the entry appended by the closing loop; the whole function.
\<close>

definition updateFromMetric ::
  "(string \<Rightarrow> string) \<Rightarrow> string \<Rightarrow> Store \<times> string set \<Rightarrow> Metric \<Rightarrow> (Store \<times> string set) option" where
  "updateFromMetric q name st metric =
     (case st of (s, seenSignatures) \<Rightarrow>
        (let labels = metricLabels metric
         in (case metricValue metric of
               None \<Rightarrow> Some (s, seenSignatures)
             | Some v \<Rightarrow>
                 (let sig = GenerateSignature q name labels
                  in (case updateMetric s sig name labels v of
                        None \<Rightarrow> None
                      | Some s' \<Rightarrow> Some (s', insert sig seenSignatures))))))"

definition updateFromFamily ::
  "(string \<Rightarrow> string) \<Rightarrow> Store \<times> string set \<Rightarrow> MetricFamily \<Rightarrow> (Store \<times> string set) option" where
  "updateFromFamily q st family =
     foldOpt (updateFromMetric q (FamilyName family)) st (FamilyMetric family)"

definition fillMissing :: "int \<Rightarrow> string set \<Rightarrow> string \<times> MetricSeries \<Rightarrow> string \<times> MetricSeries" where
  "fillMissing historyLimit seenSignatures e =
     (if fst e \<in> seenSignatures then e else (fst e, appendValue historyLimit (snd e) NaN))"

definition UpdateFromFamilies :: "(string \<Rightarrow> string) \<Rightarrow> Store \<Rightarrow> MetricFamily list \<Rightarrow> Store option" where
  "UpdateFromFamilies q s families =
     (case foldOpt (updateFromFamily q) (s, {}) families of
        None \<Rightarrow> None
      | Some (s1, seenSignatures) \<Rightarrow>
          Some (s1\<lparr>Metrics := map (fillMissing (HistoryLimit s1) seenSignatures) (Metrics s1)\<rparr>))"

text \<open>A metric that carries a value \<^verbatim>\<open>UpdateFromFamilies\<close> reads: the other ones are skipped.\<close>

definition carriesValue :: "Metric \<Rightarrow> bool" where
  "carriesValue m \<longleftrightarrow> Gauge m \<noteq> None \<or> Counter m \<noteq> None \<or> Untyped m \<noteq> None"

text \<open>
  The observations of a snapshot, in the order in which \<^verbatim>\<open>UpdateFromFamilies\<close> reaches
  \<^verbatim>\<open>updateMetric\<close>: signature, name, labels and value of every metric that is not
  skipped.
\<close>

definition metricObs ::
  "(string \<Rightarrow> string) \<Rightarrow> string \<Rightarrow> Metric \<Rightarrow> (string \<times> string \<times> labels \<times> float64) list" where
  "metricObs q name metric =
     (case metricValue metric of
        None \<Rightarrow> []
      | Some v \<Rightarrow> [(GenerateSignature q name (metricLabels metric), name, metricLabels metric, v)])"

definition observations ::
  "(string \<Rightarrow> string) \<Rightarrow> MetricFamily list \<Rightarrow> (string \<times> string \<times> labels \<times> float64) list" where
  "observations q families =
     concat (map (\<lambda>family. concat (map (metricObs q (FamilyName family)) (FamilyMetric family))) families)"

text \<open>The observations of one signature, and the values they carry.\<close>

definition observationsOf ::
  "(string \<Rightarrow> string) \<Rightarrow> string \<Rightarrow> MetricFamily list \<Rightarrow> (string \<times> string \<times> labels \<times> float64) list" where
  "observationsOf q sig families = filter (\<lambda>ob. fst ob = sig) (observations q families)"

definition observedValues :: "(string \<Rightarrow> string) \<Rightarrow> string \<Rightarrow> MetricFamily list \<Rightarrow> float64 list" where
  "observedValues q sig families = map (\<lambda>ob. snd (snd (snd ob))) (observationsOf q sig families)"

text \<open>The history of a signature in a store: \<open>None\<close> while no series exists for it.\<close>

definition history :: "Store \<Rightarrow> string \<Rightarrow> float64 list option" where
  "history s sig = map_option Values (map_of (Metrics s) sig)"

text \<open>
  What one observation does to the series of its signature when \<^verbatim>\<open>updateMetric\<close> does
  not panic, and what it does to the store and the set of seen signatures.
\<close>

definition observe ::
  "int \<Rightarrow> MetricSeries option \<Rightarrow> string \<times> string \<times> labels \<times> float64 \<Rightarrow> MetricSeries option" where
  "observe historyLimit cur ob =
     (case ob of (sig, name, labels, v) \<Rightarrow>
        Some (appendValue historyLimit
               (case cur of Some series \<Rightarrow> series
                          | None \<Rightarrow> \<lparr>Name = name, Labels = labels, Values = []\<rparr>) v))"

definition applyObs ::
  "Store \<times> string set \<Rightarrow> string \<times> string \<times> labels \<times> float64 \<Rightarrow> (Store \<times> string set) option" where
  "applyObs st ob =
     (case st of (s, seen) \<Rightarrow> (case ob of (sig, name, labels, v) \<Rightarrow>
        (case updateMetric s sig name labels v of
           None \<Rightarrow> None
         | Some s' \<Rightarrow> Some (s', insert sig seen))))"

text \<open>The last \<open>n\<close> elements of a list (all of it when it is shorter).\<close>

definition lastN :: "nat \<Rightarrow> 'a list \<Rightarrow> 'a list" where
  "lastN n xs = drop (length xs - n) xs"

subsection \<open>Sample inputs for the store\<close>

text \<open>
  A family with a single gauge, and the quoting of a label value that consists of
  printable ASCII characters other than the double quote and the backslash: for such a
  value \<^verbatim>\<open>%q\<close> only adds the enclosing double quotes.
\<close>

definition gaugeFamily :: "string \<Rightarrow> (string \<times> string) list \<Rightarrow> real \<Rightarrow> MetricFamily" where
  "gaugeFamily name ls x =
     \<lparr>FamilyName = name,
      FamilyMetric = [\<lparr>Label = ls, Gauge = Some (Fin x), Counter = None, Untyped = None\<rparr>]\<rparr>"

definition quotePlain :: "string \<Rightarrow> string" where
  "quotePlain v = [CHR 0x22] @ v @ [CHR 0x22]"

subsection \<open>Configuration, libraries and the model (main.go)\<close>

text \<open>
  \<^verbatim>\<open>Config\<close> as \<^verbatim>\<open>flag.Parse\<close> fills it; \<open>Interval\<close> is a \<^verbatim>\<open>time.Duration\<close>, a number of
  nanoseconds.
\<close>

record Config =
  URL :: string
  Interval :: int
  History :: int
  LabelMode :: string
  FilterMetric :: string
  FilterLabel :: string
  DeltaMode :: string

definition DeltaModeOff :: string where "DeltaModeOff = ''off''"
definition DeltaModeNext :: string where "DeltaModeNext = ''next''"
definition DeltaModeView :: string where "DeltaModeView = ''view''"

definition LabelModeShowAll :: string where "LabelModeShowAll = ''all''"
definition LabelModeHideFiltered :: string where "LabelModeHideFiltered = ''hide-filtered''"
definition LabelModeHideAll :: string where "LabelModeHideAll = ''hide-all''"

text \<open>
  A \<^verbatim>\<open>lipgloss.Style\<close> as \<^verbatim>\<open>main\<close> builds it, the messages \<^verbatim>\<open>Update\<close> receives, the commands
  it returns (\<^verbatim>\<open>tea.Batch\<close> is the list of its commands, \<^verbatim>\<open>nil\<close> the empty list), and what
  \<^verbatim>\<open>buildTable\<close> hands to the table renderer: the text \<^verbatim>\<open>No metrics to display\<close>, or
  headers and rows.
\<close>

datatype Style = Foreground string | Faint

datatype Msg =
    KeyMsg string
  | TickMsg
  | FamiliesMsg "MetricFamily list"
  | ErrorMsg string
  | WindowSizeMsg int int
  | OtherMsg

datatype Cmd = Quit | FetchCmd | TickCmd | ViewportCmd

datatype TableView = NoMetrics | Table "string list" "string list list"

text \<open>
  The fields of the viewport that the program sets; scrolling is the viewport's own
  \<^verbatim>\<open>Update\<close>, a library function.
\<close>

record Viewport =
  Width :: int
  Height :: int
  MouseWheelEnabled :: bool
  Content :: "TableView option"
  YOffset :: int

text \<open>
  The functions of the standard library and of the packages the program calls:
  \<^item> \<open>sprintfQ v\<close>, \<open>sprintf2f x\<close>, \<open>sprintfD n\<close>: \<^verbatim>\<open>fmt.Sprintf\<close> with \<^verbatim>\<open>%q\<close>, \<^verbatim>\<open>%.2f\<close>, \<^verbatim>\<open>%d\<close>;
  \<^item> \<open>regexpMatch p s\<close>: the first result of \<^verbatim>\<open>regexp.MatchString(p, s)\<close>, which is false
    when the pattern does not compile;
  \<^item> \<open>regexpCompiles p\<close>: \<^verbatim>\<open>regexp.Compile(p)\<close> returns no error;
  \<^item> \<open>lipglossWidth s\<close>: \<^verbatim>\<open>lipgloss.Width(s)\<close>;
  \<^item> \<open>styleRender st s\<close>: \<^verbatim>\<open>st.Render(s)\<close>;
  \<^item> \<open>durationSeconds d\<close>: \<^verbatim>\<open>int(d.Seconds())\<close>;
  \<^item> \<open>viewportUpdate vp msg\<close>: \<^verbatim>\<open>vp.Update(msg)\<close>.
\<close>

record lib =
  sprintfQ :: "string \<Rightarrow> string"
  sprintf2f :: "float64 \<Rightarrow> string"
  sprintfD :: "int \<Rightarrow> string"
  regexpMatch :: "string \<Rightarrow> string \<Rightarrow> bool"
  regexpCompiles :: "string \<Rightarrow> bool"
  lipglossWidth :: "string \<Rightarrow> int"
  styleRender :: "Style \<Rightarrow> string \<Rightarrow> string"
  durationSeconds :: "int \<Rightarrow> int"
  viewportUpdate :: "Viewport \<Rightarrow> Msg \<Rightarrow> Viewport \<times> Cmd list"

record model =
  cfg :: Config
  store :: Store
  fetcher :: string
  err :: "string option"
  connectionError :: "string option"
  isConnected :: bool
  lastSuccessfulFetch :: int
  showHelp :: bool
  isPaused :: bool
  width :: int
  height :: int
  viewport :: Viewport
  viewportReady :: bool
  metricNameStyle :: Style
  labelStyle :: Style
  currentValueStyle :: Style
  deltaValueStyle :: Style

subsection \<open>Strings\<close>

text \<open>
  \<^verbatim>\<open>strings.Index(s, "=")\<close> for a separator of one byte, \<^verbatim>\<open>strings.TrimRight\<close> for a cut
  set of one byte, \<^verbatim>\<open>strings.HasPrefix\<close> and \<^verbatim>\<open>strings.Join\<close>.
\<close>

fun stringsIndex :: "string \<Rightarrow> char \<Rightarrow> int" where
  "stringsIndex [] c = - 1"
| "stringsIndex (x # xs) c =
     (if x = c then 0 else (let r = stringsIndex xs c in if r = - 1 then - 1 else r + 1))"

definition stringsTrimRight :: "string \<Rightarrow> char \<Rightarrow> string" where
  "stringsTrimRight s c = rev (dropWhile (\<lambda>x. x = c) (rev s))"

definition stringsHasPrefix :: "string \<Rightarrow> string \<Rightarrow> bool" where
  "stringsHasPrefix s p \<longleftrightarrow> take (length p) s = p"

fun stringsJoin :: "string list \<Rightarrow> string \<Rightarrow> string" where
  "stringsJoin [] sep = []"
| "stringsJoin [x] sep = x"
| "stringsJoin (x # y # ys) sep = x @ sep @ stringsJoin (y # ys) sep"

text \<open>A 64-bit \<^verbatim>\<open>int\<close> result, wrapped around.\<close>

definition wrap64 :: "int \<Rightarrow> int" where
  "wrap64 x = (x + 2 ^ 63) mod 2 ^ 64 - 2 ^ 63"

subsection \<open>Filtering (the first loop of buildTable)\<close>

text \<open>The loop over the label values of the legacy pattern, with its \<^verbatim>\<open>break\<close>.\<close>

fun anyValueMatches :: "lib \<Rightarrow> string \<Rightarrow> labels \<Rightarrow> bool" where
  "anyValueMatches L pattern [] = False"
| "anyValueMatches L pattern (kv # rest) =
     (if regexpMatch L pattern (snd kv) then True else anyValueMatches L pattern rest)"

text \<open>The value of \<^verbatim>\<open>matched\<close> after the label check.\<close>

definition labelMatched :: "lib \<Rightarrow> string \<Rightarrow> labels \<Rightarrow> bool" where
  "labelMatched L filterLabel ls =
     (let idx = stringsIndex filterLabel (CHR ''='')
      in if idx \<noteq> - 1
         then (let key = take (nat idx) filterLabel;
                   rest = drop (nat (idx + 1)) filterLabel
               in if stringsHasPrefix rest ''~''
                  then (let pattern = drop 1 rest
                        in (case map_of ls key of
                              Some val \<Rightarrow> regexpMatch L pattern val
                            | None \<Rightarrow> False))
                  else (case map_of ls key of
                          Some val \<Rightarrow> val = rest
                        | None \<Rightarrow> False))
         else anyValueMatches L filterLabel ls)"

text \<open>Whether the loop body reaches the \<^verbatim>\<open>append\<close> for a series (no \<^verbatim>\<open>continue\<close> is taken).\<close>

definition passesFilter :: "lib \<Rightarrow> Config \<Rightarrow> MetricSeries \<Rightarrow> bool" where
  "passesFilter L c series =
     (if FilterMetric c \<noteq> [] \<and> \<not> regexpMatch L (FilterMetric c) (Name series) then False
      else if FilterLabel c \<noteq> [] \<and> \<not> labelMatched L (FilterLabel c) (Labels series) then False
      else True)"

text \<open>
  The loop over the sorted keys. Every key comes from the map itself, so the lookup
  finds a series.
\<close>

fun filterLoop :: "lib \<Rightarrow> Config \<Rightarrow> (string \<times> MetricSeries) list \<Rightarrow> string list \<Rightarrow> MetricSeries list" where
  "filterLoop L c metrics [] = []"
| "filterLoop L c metrics (k # keys) =
     (case map_of metrics k of
        None \<Rightarrow> filterLoop L c metrics keys
      | Some series \<Rightarrow>
          (if passesFilter L c series then series # filterLoop L c metrics keys
           else filterLoop L c metrics keys))"

definition filteredSeries :: "lib \<Rightarrow> model \<Rightarrow> MetricSeries list" where
  "filteredSeries L m = filterLoop L (cfg m) (Metrics (store m)) (sort (map fst (Metrics (store m))))"

text \<open>
  The label check in the words of the specification: a key and a regular expression,
  a key and an exact value, or a regular expression for any label value.
\<close>

datatype LabelPattern = KeyRegex string string | KeyExact string string | AnyValue string

definition parseLabelPattern :: "string \<Rightarrow> LabelPattern" where
  "parseLabelPattern p =
     (if CHR ''='' \<in> set p
      then (let key = takeWhile (\<lambda>x. x \<noteq> CHR ''='') p;
                rest = tl (dropWhile (\<lambda>x. x \<noteq> CHR ''='') p)
            in (case rest of
                  x # pattern \<Rightarrow> if x = CHR ''~'' then KeyRegex key pattern else KeyExact key rest
                | [] \<Rightarrow> KeyExact key rest))
      else AnyValue p)"

definition labelCheck :: "lib \<Rightarrow> string \<Rightarrow> labels \<Rightarrow> bool" where
  "labelCheck L p ls =
     (case parseLabelPattern p of
        KeyRegex key pattern \<Rightarrow>
          (case map_of ls key of Some v \<Rightarrow> regexpMatch L pattern v | None \<Rightarrow> False)
      | KeyExact key val \<Rightarrow> map_of ls key = Some val
      | AnyValue pattern \<Rightarrow> (\<exists>v \<in> snd ` set ls. regexpMatch L pattern v))"

definition nameCheck :: "lib \<Rightarrow> string \<Rightarrow> string \<Rightarrow> bool" where
  "nameCheck L p name \<longleftrightarrow> p = [] \<or> regexpMatch L p name"

subsection \<open>Table rows and headers (buildTableRows, buildTable)\<close>

definition getFilteredLabelKeys :: "string \<Rightarrow> string list" where
  "getFilteredLabelKeys filterLabel =
     (if filterLabel = [] then []
      else (let idx = stringsIndex filterLabel (CHR ''='')
            in if idx \<noteq> - 1 then [take (nat idx) filterLabel] else []))"

text \<open>\<^verbatim>\<open>fmt.Sprintf("%s=%s", k, v)\<close> for a label.\<close>

definition labelPart :: "string \<times> string \<Rightarrow> string" where
  "labelPart kv = fst kv @ ''='' @ snd kv"

definition styledName :: "lib \<Rightarrow> model \<Rightarrow> MetricSeries \<Rightarrow> string" where
  "styledName L m series =
     (let styled = styleRender L (metricNameStyle m) (Name series)
      in if LabelMode (cfg m) \<noteq> LabelModeHideAll \<and> length (Labels series) > 0
         then (let labelParts =
                     (if LabelMode (cfg m) = LabelModeHideFiltered
                      then (let filteredKeys = getFilteredLabelKeys (FilterLabel (cfg m))
                            in map labelPart (filter (\<lambda>kv. fst kv \<notin> set filteredKeys) (Labels series)))
                      else map labelPart (Labels series))
               in if length labelParts > 0
                  then styled @ styleRender L (labelStyle m) (''{'' @ stringsJoin (sort labelParts) '','' @ ''}'')
                  else styled)
         else styled)"

text \<open>The Go comparison \<^verbatim>\<open>val > 0\<close>.\<close>

fun fgt0 :: "float64 \<Rightarrow> bool" where
  "fgt0 (Fin x) = (x > 0)"
| "fgt0 PInf = True"
| "fgt0 _ = False"

definition formatFloat :: "lib \<Rightarrow> float64 \<Rightarrow> string" where
  "formatFloat L val = stringsTrimRight (stringsTrimRight (sprintf2f L val) (CHR ''0'')) (CHR ''.'')"

text \<open>The cell of a sample that exists.\<close>

definition valueCell :: "lib \<Rightarrow> model \<Rightarrow> bool \<Rightarrow> float64 \<Rightarrow> string" where
  "valueCell L m isCurrentValue val =
     (if isNaN val then ''.''
      else (let formatted = formatFloat L val;
                isDeltaValue =
                  (if DeltaMode (cfg m) = DeltaModeNext then \<not> isCurrentValue
                   else if DeltaMode (cfg m) = DeltaModeView then True
                   else False)
            in if isDeltaValue
               then (if formatted = ''0'' \<or> formatted = ''-0'' then ''.''
                     else styleRender L (deltaValueStyle m)
                            (if fgt0 val then ''+'' @ formatted else formatted))
               else if isCurrentValue then styleRender L (currentValueStyle m) formatted
               else formatted))"

text \<open>The body of the loop over the value columns, for the column \<open>i\<close>.\<close>

definition valueColumn :: "lib \<Rightarrow> model \<Rightarrow> float64 list \<Rightarrow> int \<Rightarrow> int \<Rightarrow> string" where
  "valueColumn L m vals numValueCols i =
     (let offset = numValueCols - 1 - i;
          valIdx = int (length vals) - 1 - offset;
          isCurrentValue = (i = numValueCols - 1)
      in if valIdx \<ge> 0 \<and> valIdx < int (length vals)
         then valueCell L m isCurrentValue (vals ! nat valIdx)
         else [])"

definition maxValueCols :: "model \<Rightarrow> int" where
  "maxValueCols m = (if History (cfg m) < 1 then 1 else History (cfg m))"

definition buildRow :: "lib \<Rightarrow> model \<Rightarrow> MetricSeries \<Rightarrow> string list" where
  "buildRow L m series =
     (let vals = ValuesWithDeltas series (DeltaMode (cfg m));
          numValueCols = maxValueCols m
      in styledName L m series
         # map (\<lambda>i. valueColumn L m vals numValueCols (int i)) [0..<nat numValueCols])"

definition buildTableRows :: "lib \<Rightarrow> model \<Rightarrow> MetricSeries list \<Rightarrow> string list list" where
  "buildTableRows L m series = map (buildRow L m) series"

definition headerTitle :: "lib \<Rightarrow> model \<Rightarrow> int \<Rightarrow> int \<Rightarrow> string" where
  "headerTitle L m maxPossibleValueCols i =
     (if i = maxPossibleValueCols - 1 then ''Curr''
      else ''-'' @ sprintfD L (wrap64 ((maxPossibleValueCols - 1 - i)
                                 * durationSeconds L (Interval (cfg m)))) @ ''s'')"

definition allHeaders :: "lib \<Rightarrow> model \<Rightarrow> string list" where
  "allHeaders L m =
     ''Metric'' # map (\<lambda>i. headerTitle L m (maxValueCols m) (int i)) [0..<nat (maxValueCols m)]"

subsection \<open>Column widths and the columns that fit\<close>

definition columnWidth :: "lib \<Rightarrow> string list \<Rightarrow> string list list \<Rightarrow> nat \<Rightarrow> int" where
  "columnWidth L headers rows colIdx =
     (let maxWidth =
            (if colIdx < length headers
             then (let headerWidth = lipglossWidth L (headers ! colIdx)
                   in if headerWidth > 0 then headerWidth else 0)
             else 0)
      in fold (\<lambda>row maxWidth.
                 if colIdx < length row
                 then (let cellWidth = lipglossWidth L (row ! colIdx)
                       in if cellWidth > maxWidth then cellWidth else maxWidth)
                 else maxWidth) rows maxWidth)"

definition calculateColumnWidths :: "lib \<Rightarrow> string list \<Rightarrow> string list list \<Rightarrow> int list" where
  "calculateColumnWidths L headers rows =
     (if length rows = 0 \<and> length headers = 0 then []
      else (let maxCols = fold (\<lambda>row maxCols. if length row > maxCols then length row else maxCols)
                            rows (length headers)
            in map (columnWidth L headers rows) [0..<maxCols]))"

text \<open>
  The loop that adds value columns from the right, entered with the index \<open>i\<close>, the
  width used so far and the number of columns taken so far; its result is
  \<open>numValueCols\<close> when the loop ends or breaks. The widths are those of strings in
  memory, so their sums are taken in unbounded integers.
\<close>

function fitColumns :: "int list \<Rightarrow> int \<Rightarrow> nat \<Rightarrow> int \<Rightarrow> int \<Rightarrow> int" where
  "fitColumns colWidths termWidth i usedWidth numValueCols =
     (if int i < int (length colWidths) - 1
      then (if int (length colWidths) - 1 - int i > 0
              \<and> int (length colWidths) - 1 - int i < int (length colWidths)
            then (if usedWidth + colWidths ! nat (int (length colWidths) - 1 - int i) + 1 \<le> termWidth
                  then fitColumns colWidths termWidth (i + 1)
                         (usedWidth + colWidths ! nat (int (length colWidths) - 1 - int i) + 1)
                         (numValueCols + 1)
                  else numValueCols)
            else fitColumns colWidths termWidth (i + 1) usedWidth numValueCols)
      else numValueCols)"
  by pat_completeness auto
termination
  by (relation "measure (\<lambda>(colWidths, termWidth, i, usedWidth, numValueCols). length colWidths - i)") auto

declare fitColumns.simps [simp del]

definition selectValueCols :: "int list \<Rightarrow> int \<Rightarrow> int" where
  "selectValueCols colWidths termWidth =
     (let usedWidth = (if length colWidths > 0 then 1 + (colWidths ! 0 + 1) else 1);
          numValueCols = fitColumns colWidths termWidth 0 usedWidth 0
      in if numValueCols < 1 then 1 else numValueCols)"

text \<open>
  A row or the header list cut down to its first cell and its last \<open>numValueCols\<close>
  cells. Every row of \<open>buildTableRows\<close> and the header list start with the name cell.
\<close>

definition trimRow :: "int \<Rightarrow> string list \<Rightarrow> string list" where
  "trimRow numValueCols row =
     (let startCol = (if int (length row) - numValueCols < 1 then 1 else int (length row) - numValueCols)
      in (case row of [] \<Rightarrow> [] | name # _ \<Rightarrow> name # drop (nat startCol) row))"

definition buildTable :: "lib \<Rightarrow> model \<Rightarrow> TableView" where
  "buildTable L m =
     (let series = filteredSeries L m
      in if length series = 0 then NoMetrics
         else (let allRows = buildTableRows L m series;
                   headers = allHeaders L m;
                   colWidths = calculateColumnWidths L headers allRows;
                   numValueCols = selectValueCols colWidths (width m)
               in Table (trimRow numValueCols headers) (map (trimRow numValueCols) allRows)))"

text \<open>
  The greedy choice in the words of the specification: go through the widths of the
  value columns from the most recent one to the oldest, add a column while the running
  total with its width and one border stays within the terminal width, and stop at
  the first column that does not fit.
\<close>

fun greedy :: "int \<Rightarrow> int \<Rightarrow> int list \<Rightarrow> nat" where
  "greedy used termWidth [] = 0"
| "greedy used termWidth (w # ws) =
     (if used + w + 1 \<le> termWidth then Suc (greedy (used + w + 1) termWidth ws) else 0)"

subsection \<open>Update and main\<close>

definition setContent :: "Viewport \<Rightarrow> TableView \<Rightarrow> Viewport" where
  "setContent vp t = vp\<lparr>Content := Some t\<rparr>"

text \<open>\<^verbatim>\<open>if m.viewportReady { m.viewport.SetContent(m.buildTable()) }\<close>\<close>

definition refreshViewport :: "lib \<Rightarrow> model \<Rightarrow> model" where
  "refreshViewport L m =
     (if viewportReady m then m\<lparr>viewport := setContent (viewport m) (buildTable L m)\<rparr> else m)"

definition cycleLabelMode :: "Config \<Rightarrow> string" where
  "cycleLabelMode c =
     (if FilterLabel c = []
      then (if LabelMode c = LabelModeShowAll then LabelModeHideAll else LabelModeShowAll)
      else (if LabelMode c = LabelModeShowAll then LabelModeHideFiltered
            else if LabelMode c = LabelModeHideFiltered then LabelModeHideAll
            else if LabelMode c = LabelModeHideAll then LabelModeShowAll
            else LabelModeShowAll))"

definition cycleDeltaMode :: "Config \<Rightarrow> string" where
  "cycleDeltaMode c =
     (if DeltaMode c = DeltaModeOff then DeltaModeNext
      else if DeltaMode c = DeltaModeNext then DeltaModeView
      else if DeltaMode c = DeltaModeView then DeltaModeOff
      else DeltaModeOff)"

definition viewportNew :: "int \<Rightarrow> int \<Rightarrow> Viewport" where
  "viewportNew w h = \<lparr>Width = w, Height = h, MouseWheelEnabled = True, Content = None, YOffset = 0\<rparr>"

text \<open>
  \<^verbatim>\<open>Init\<close> and \<^verbatim>\<open>Update\<close>; \<open>now\<close> is \<^verbatim>\<open>time.Now()\<close> when the message is handled. The result
  \<open>None\<close> is a panic inside \<^verbatim>\<open>Update\<close>, which ends the program.
\<close>

definition Init :: "model \<Rightarrow> Cmd list" where
  "Init m = [FetchCmd, TickCmd]"

fun Update :: "lib \<Rightarrow> int \<Rightarrow> model \<Rightarrow> Msg \<Rightarrow> (model \<times> Cmd list) option" where
  "Update L now m (KeyMsg k) =
     (if k = ''q'' \<or> k = ''ctrl+c'' then Some (m, [Quit])
      else if k = ''?'' then Some (m\<lparr>showHelp := \<not> showHelp m\<rparr>, [])
      else if k = ''l''
      then Some (refreshViewport L (m\<lparr>cfg := (cfg m)\<lparr>LabelMode := cycleLabelMode (cfg m)\<rparr>\<rparr>), [])
      else if k = ''d''
      then Some (refreshViewport L (m\<lparr>cfg := (cfg m)\<lparr>DeltaMode := cycleDeltaMode (cfg m)\<rparr>\<rparr>), [])
      else if k = ''p'' then Some (m\<lparr>isPaused := \<not> isPaused m\<rparr>, [])
      else if viewportReady m
      then (case viewportUpdate L (viewport m) (KeyMsg k) of
              (vp, cmd) \<Rightarrow> Some (m\<lparr>viewport := vp\<rparr>, cmd))
      else Some (m, []))"
| "Update L now m TickMsg =
     (if isPaused m then Some (m, [TickCmd]) else Some (m, [FetchCmd, TickCmd]))"
| "Update L now m (FamiliesMsg families) =
     (if isPaused m then Some (m, [])
      else (case UpdateFromFamilies (sprintfQ L) (store m) families of
              None \<Rightarrow> None
            | Some s \<Rightarrow>
                Some (refreshViewport L
                        (m\<lparr>store := s,
                           isConnected := True,
                           connectionError := None,
                           lastSuccessfulFetch := now\<rparr>), [])))"
| "Update L now m (ErrorMsg e) =
     Some (m\<lparr>connectionError := Some e, isConnected := False\<rparr>, [])"
| "Update L now m (WindowSizeMsg w h) =
     (let viewportHeight = (if h - 2 < 1 then 1 else h - 2);
          m1 = m\<lparr>width := w, height := h\<rparr>;
          m2 = (if \<not> viewportReady m1
                then m1\<lparr>viewport := viewportNew w viewportHeight, viewportReady := True\<rparr>
                else m1\<lparr>viewport := (viewport m1)\<lparr>Width := w, Height := viewportHeight\<rparr>\<rparr>)
      in Some (refreshViewport L m2, []))"
| "Update L now m OtherMsg = Some (m, [])"

text \<open>
  The start of the program, from the \<^verbatim>\<open>Config\<close> that \<^verbatim>\<open>flag.Parse\<close> has filled. \<open>Inl c\<close> is
  \<^verbatim>\<open>os.Exit(c)\<close> after the error message; \<open>Inr\<close> carries on: for \<open>parseFlags\<close> with the
  configuration, for \<open>main\<close> with the model on which \<^verbatim>\<open>tea.NewProgram(m).Run()\<close> starts the
  event loop.
\<close>

definition parseFlags :: "Config \<Rightarrow> int + Config" where
  "parseFlags c =
     (if \<not> (LabelMode c = LabelModeShowAll \<or> LabelMode c = LabelModeHideFiltered
             \<or> LabelMode c = LabelModeHideAll) then Inl 1
      else if \<not> (DeltaMode c = DeltaModeOff \<or> DeltaMode c = DeltaModeNext
                  \<or> DeltaMode c = DeltaModeView) then Inl 1
      else Inr c)"

definition initialModel :: "Config \<Rightarrow> model" where
  "initialModel c =
     \<lparr>cfg = c,
      store = NewStore (History c),
      fetcher = URL c,
      err = None,
      connectionError = None,
      isConnected = False,
      lastSuccessfulFetch = 0,
      showHelp = False,
      isPaused = False,
      width = 80,
      height = 24,
      viewport = \<lparr>Width = 0, Height = 0, MouseWheelEnabled = False, Content = None, YOffset = 0\<rparr>,
      viewportReady = False,
      metricNameStyle = Foreground ''86'',
      labelStyle = Faint,
      currentValueStyle = Foreground ''213'',
      deltaValueStyle = Foreground ''208''\<rparr>"

definition main :: "lib \<Rightarrow> Config \<Rightarrow> int + model" where
  "main L flags =
     (case parseFlags flags of
        Inl code \<Rightarrow> Inl code
      | Inr c \<Rightarrow>
          if URL c = [] then Inl 1
          else if \<not> regexpCompiles L (FilterMetric c) then Inl 1
          else if \<not> regexpCompiles L (FilterLabel c) then Inl 1
          else Inr (initialModel c))"

subsection \<open>A stand-in for the libraries in sample runs\<close>

text \<open>
  Decimal digits of a natural number, and a library record for the sample runs of this
  theory. On the arguments that occur in those runs its functions return what the Go
  functions return: \<^verbatim>\<open>%q\<close> of a plain value, \<^verbatim>\<open>%d\<close> of a number that is not negative, a
  regular expression made of letters only (it matches the strings that contain it),
  the width of a plain ASCII string, a duration of whole seconds; rendering without
  colours leaves the text as it is.
\<close>

function showNat :: "nat \<Rightarrow> string" where
  "showNat n =
     (if n < 10 then [''0123456789'' ! n] else showNat (n div 10) @ [''0123456789'' ! (n mod 10)])"
  by pat_completeness auto
termination
  by (relation "measure (\<lambda>n. n)") auto

declare showNat.simps [simp del]

fun containsAt :: "string \<Rightarrow> string \<Rightarrow> bool" where
  "containsAt p [] = (p = [])"
| "containsAt p (x # xs) = (take (length p) (x # xs) = p \<or> containsAt p xs)"

definition sampleLib :: lib where
  "sampleLib =
     \<lparr>sprintfQ = quotePlain,
      sprintf2f = (\<lambda>x. ''0.00''),
      sprintfD = (\<lambda>n. showNat (nat n)),
      regexpMatch = (\<lambda>p s. containsAt p s),
      regexpCompiles = (\<lambda>p. CHR ''('' \<notin> set p),
      lipglossWidth = (\<lambda>s. int (length s)),
      styleRender = (\<lambda>st s. s),
      durationSeconds = (\<lambda>d. d div 1000000000),
      viewportUpdate = (\<lambda>vp msg. (vp, []))\<rparr>"

subsection \<open>A sample model\<close>

text \<open>
  The model after start-up with a history of three samples and an interval of five
  seconds, holding one series without labels whose two samples are both missing.
\<close>

definition sampleConfig :: Config where
  "sampleConfig =
     \<lparr>URL = ''http://localhost:8080/metrics'', Interval = 5000000000, History = 3,
      LabelMode = ''all'', FilterMetric = [], FilterLabel = [], DeltaMode = ''off''\<rparr>"

definition sampleModel :: model where
  "sampleModel =
     (initialModel sampleConfig)
       \<lparr>store := \<lparr>Metrics = [(''up{}'', \<lparr>Name = ''up'', Labels = [], Values = [NaN, NaN]\<rparr>)],
                  HistoryLimit = 3\<rparr>\<rparr>"

section \<open>Verified properties\<close>

subsection \<open>The store: one update seen from one signature\<close>

text \<open>
  The two nested iterations of \<^verbatim>\<open>UpdateFromFamilies\<close> visit the observations of the snapshot
  one after the other.
\<close>

lemma foldOpt_append:
  "foldOpt f st (xs @ ys) = (case foldOpt f st xs of None \<Rightarrow> None | Some st' \<Rightarrow> foldOpt f st' ys)"
  by (induction xs arbitrary: st) (simp_all split: option.splits)

lemma updateFromMetric_obs:
  "updateFromMetric q name st metric = foldOpt applyObs st (metricObs q name metric)"
  by (cases st)
     (simp add: updateFromMetric_def metricObs_def applyObs_def Let_def split: option.splits)

lemma foldOpt_updateFromMetric_obs:
  "foldOpt (updateFromMetric q name) st ms = foldOpt applyObs st (concat (map (metricObs q name) ms))"
  by (induction ms arbitrary: st)
     (simp_all add: updateFromMetric_obs foldOpt_append split: option.splits)

lemma foldOpt_updateFromFamily_obs:
  "foldOpt (updateFromFamily q) st fams = foldOpt applyObs st (observations q fams)"
  by (induction fams arbitrary: st)
     (simp_all add: observations_def updateFromFamily_def foldOpt_updateFromMetric_obs
        foldOpt_append split: option.splits)

lemma UpdateFromFamilies_observations:
  "UpdateFromFamilies q s fams =
     (case foldOpt applyObs (s, {}) (observations q fams) of
        None \<Rightarrow> None
      | Some (s1, seen) \<Rightarrow>
          Some (s1\<lparr>Metrics := map (fillMissing (HistoryLimit s1) seen) (Metrics s1)\<rparr>))"
  by (simp add: UpdateFromFamilies_def foldOpt_updateFromFamily_obs)

text \<open>One observation: when it panics, and what it does otherwise.\<close>

lemma applyObs_None_iff:
  "applyObs (s, seen) ob = None \<longleftrightarrow> HistoryLimit s < 0 \<and> map_of (Metrics s) (fst ob) = None"
  by (cases ob) (auto simp: applyObs_def updateMetric_def split: option.splits)

lemma applyObs_lookup:
  "applyObs (s, seen) ob = Some (s', seen') \<Longrightarrow>
     HistoryLimit s' = HistoryLimit s \<and> seen' = insert (fst ob) seen \<and>
     map_of (Metrics s') sig =
       (if fst ob = sig then observe (HistoryLimit s) (map_of (Metrics s) sig) ob
        else map_of (Metrics s) sig)"
  by (cases ob)
     (auto simp: applyObs_def updateMetric_def observe_def AList.update_conv'
        split: option.splits if_splits)

lemma foldOpt_applyObs_lookup:
  "foldOpt applyObs (s, seen) obs = Some (s', seen') \<Longrightarrow>
     HistoryLimit s' = HistoryLimit s \<and> seen' = seen \<union> fst ` set obs \<and>
     map_of (Metrics s') sig =
       foldl (observe (HistoryLimit s)) (map_of (Metrics s) sig) (filter (\<lambda>ob. fst ob = sig) obs)"
proof (induction obs arbitrary: s seen)
  case Nil
  then show ?case by simp
next
  case (Cons ob obs)
  from Cons.prems obtain s1 seen1 where st: "applyObs (s, seen) ob = Some (s1, seen1)"
    and rest: "foldOpt applyObs (s1, seen1) obs = Some (s', seen')"
    by (auto split: option.splits)
  note one = applyObs_lookup [OF st, of sig]
  note ih = Cons.IH [OF rest]
  show ?case
    using one ih by auto
qed

lemma foldOpt_applyObs_total:
  "0 \<le> HistoryLimit s \<Longrightarrow> \<exists>s' seen'. foldOpt applyObs (s, seen) obs = Some (s', seen')"
proof (induction obs arbitrary: s seen)
  case Nil
  then show ?case by simp
next
  case (Cons ob obs)
  from Cons.prems have "applyObs (s, seen) ob \<noteq> None"
    by (simp add: applyObs_None_iff)
  then obtain s1 seen1 where st: "applyObs (s, seen) ob = Some (s1, seen1)"
    by (cases "applyObs (s, seen) ob") auto
  from applyObs_lookup [OF st] Cons.prems have "0 \<le> HistoryLimit s1"
    by simp
  from Cons.IH [OF this, of seen1] st show ?case
    by simp
qed

text \<open>The closing loop appends NaN to the series that were not seen.\<close>

lemma map_of_fillMissing:
  "map_of (map (fillMissing n seen) al) k =
     map_option (\<lambda>series. if k \<in> seen then series else appendValue n series NaN) (map_of al k)"
  by (induction al) (auto simp: fillMissing_def)

lemma observationsOf_empty_iff:
  "observationsOf q sig fams = [] \<longleftrightarrow> sig \<notin> fst ` set (observations q fams)"
  by (auto simp: observationsOf_def filter_empty_conv)

text \<open>With a history limit that is not negative the update returns.\<close>

lemma UpdateFromFamilies_total:
  assumes "0 \<le> HistoryLimit s"
  shows "\<exists>s'. UpdateFromFamilies q s fams = Some s'"
proof -
  from foldOpt_applyObs_total [OF assms, of "{}" "observations q fams"]
  obtain s1 seen1 where "foldOpt applyObs (s, {}) (observations q fams) = Some (s1, seen1)"
    by blast
  then show ?thesis
    by (simp add: UpdateFromFamilies_observations)
qed

text \<open>
  The series of a signature after an update that returns: the observations of that
  signature are applied in order; when there is none, NaN is appended to the series if
  it exists.
\<close>

lemma lookup_UpdateFromFamilies:
  assumes "UpdateFromFamilies q s fams = Some s'"
  shows "HistoryLimit s' = HistoryLimit s"
    and "map_of (Metrics s') sig =
     (if observationsOf q sig fams = []
      then map_option (\<lambda>series. appendValue (HistoryLimit s) series NaN) (map_of (Metrics s) sig)
      else foldl (observe (HistoryLimit s)) (map_of (Metrics s) sig) (observationsOf q sig fams))"
proof -
  from assms obtain s1 seen1 where st: "foldOpt applyObs (s, {}) (observations q fams) = Some (s1, seen1)"
    and s': "s' = s1\<lparr>Metrics := map (fillMissing (HistoryLimit s1) seen1) (Metrics s1)\<rparr>"
    by (auto simp: UpdateFromFamilies_observations split: option.splits)
  note L = foldOpt_applyObs_lookup [OF st, of sig]
  show "HistoryLimit s' = HistoryLimit s"
    using L by (simp add: s')
  have seen: "sig \<in> seen1 \<longleftrightarrow> observationsOf q sig fams \<noteq> []"
    using L by (simp add: observationsOf_empty_iff)
  have "map_of (Metrics s') sig =
          map_option (\<lambda>series. if sig \<in> seen1 then series else appendValue (HistoryLimit s1) series NaN)
            (map_of (Metrics s1) sig)"
    by (simp add: s' map_of_fillMissing)
  then show "map_of (Metrics s') sig =
     (if observationsOf q sig fams = []
      then map_option (\<lambda>series. appendValue (HistoryLimit s) series NaN) (map_of (Metrics s) sig)
      else foldl (observe (HistoryLimit s)) (map_of (Metrics s) sig) (observationsOf q sig fams))"
    using L seen by (auto simp: observationsOf_def option.map_ident)
qed

lemma Values_appendValue:
  "Values (appendValue n series v) =
     (if int (length (Values series)) + 1 > n then tl (Values series @ [v]) else Values series @ [v])"
  by (simp add: appendValue_def Let_def)

text \<open>With a negative history limit the first observation of a new series panics.\<close>

lemma negative_limit_panics:
  "HistoryLimit s < 0 \<Longrightarrow> map_of (Metrics s) sig = None \<Longrightarrow>
     updateMetric s sig name labels v = None"
  by (simp add: updateMetric_def)

lemma negative_limit_example:
  "UpdateFromFamilies quotePlain (NewStore (- 1)) [gaugeFamily ''up'' [] 1] = None"
  by (simp add: UpdateFromFamilies_def updateFromFamily_def updateFromMetric_def updateMetric_def
        metricValue_def gaugeFamily_def NewStore_def Let_def)


subsection \<open>The sliding window\<close>

lemma appendValue_lastN:
  assumes "1 \<le> n" and "Values series = lastN (nat n) pre"
  shows "Values (appendValue n series v) = lastN (nat n) (pre @ [v])"
proof (cases "int (length pre) < n")
  case True
  with assms show ?thesis by (simp add: Values_appendValue lastN_def)
next
  case False
  with assms(1) have len: "nat n \<le> length pre" "0 < nat n" by auto
  define k where "k = length pre - nat n"
  have k: "k < length pre" "Suc (length pre) - nat n = Suc k" "length pre - k = nat n"
    using len by (auto simp: k_def)
  have "drop k pre \<noteq> []" using k by simp
  then have "tl (drop k pre @ [v]) = tl (drop k pre) @ [v]"
    by simp
  also have "\<dots> = drop (Suc k) pre @ [v]"
    by (simp add: drop_Suc tl_drop)
  also have "\<dots> = drop (Suc k) (pre @ [v])"
    using k by simp
  finally have "tl (drop k pre @ [v]) = drop (Suc k) (pre @ [v])" .
  moreover have "int (length (drop k pre)) + 1 > n"
    using k len by simp
  ultimately show ?thesis
    using assms(2) k by (simp add: Values_appendValue lastN_def k_def)
qed

lemma observe_window:
  assumes "1 \<le> n"
      and "map_option Values cur = (if pre = [] then None else Some (lastN (nat n) pre))"
  shows "map_option Values (observe n cur (sig, name, ls, v)) = Some (lastN (nat n) (pre @ [v]))"
proof (cases cur)
  case None
  with assms have "pre = []" by (simp split: if_splits)
  with None assms(1) show ?thesis
    by (simp add: observe_def Values_appendValue lastN_def)
next
  case (Some series)
  with assms have "Values series = lastN (nat n) pre" by (simp split: if_splits)
  from appendValue_lastN [OF assms(1) this] Some show ?thesis
    by (simp add: observe_def)
qed

text \<open>
  A run of update cycles, each of which observes the signature once: every update
  returns, and the history is the window over the values observed so far, \<open>pre\<close>
  being those of earlier cycles.
\<close>

lemma history_run:
  assumes "1 \<le> HistoryLimit s"
      and "history s sig = (if pre = [] then None else Some (lastN (nat (HistoryLimit s)) pre))"
      and "list_all2 (\<lambda>f v. observedValues q sig f = [v]) fss vs"
  shows "\<exists>s'. foldOpt (UpdateFromFamilies q) s fss = Some s' \<and>
           history s' sig =
             (if pre @ vs = [] then None else Some (lastN (nat (HistoryLimit s)) (pre @ vs)))"
  using assms(3,1,2)
proof (induction fss vs arbitrary: s pre rule: list_all2_induct)
  case Nil
  then show ?case by simp
next
  case (Cons f fss v vs)
  from Cons.prems(1) have "0 \<le> HistoryLimit s" by simp
  from UpdateFromFamilies_total [OF this, of q f]
  obtain s1 where s1: "UpdateFromFamilies q s f = Some s1" by blast
  note L = lookup_UpdateFromFamilies [OF s1]
  from Cons.hyps(1) obtain sg nm ls where ob: "observationsOf q sig f = [(sg, nm, ls, v)]"
    by (auto simp: observedValues_def map_eq_Cons_conv)
  have lim: "HistoryLimit s1 = HistoryLimit s"
    by (rule L(1))
  have "history s1 sig = Some (lastN (nat (HistoryLimit s)) (pre @ [v]))"
    using observe_window [OF Cons.prems(1), of "map_of (Metrics s) sig" pre sg nm ls v] Cons.prems(2)
    by (simp add: history_def L(2) ob)
  then have "history s1 sig =
      (if pre @ [v] = [] then None else Some (lastN (nat (HistoryLimit s1)) (pre @ [v])))"
    by (simp add: lim)
  from Cons.IH [OF _ this] Cons.prems(1) show ?case
    by (simp add: lim s1)
qed

text \<open>
  C1. A series that does not exist yet, a history capacity \<open>N \<ge> 1\<close> and update cycles
  \<open>fss\<close> of which the \<open>i\<close>-th observes the series once, with value \<open>vs ! i\<close>: after each
  update, that is after the first \<open>j\<close> cycles for every \<open>1 \<le> j \<le> length fss\<close>, the
  samples of the series are the last \<open>min N j\<close> of the \<open>j\<close> values observed so far, in
  the order of observation, and there are \<open>min N j\<close> of them. Appending beyond the
  capacity drops the oldest sample.
\<close>

theorem sliding_window:
  assumes "1 \<le> HistoryLimit s"
      and "map_of (Metrics s) sig = None"
      and "list_all2 (\<lambda>f v. observedValues q sig f = [v]) fss vs"
      and "1 \<le> j" and "j \<le> length fss"
  shows "\<exists>s'. foldOpt (UpdateFromFamilies q) s (take j fss) = Some s'
           \<and> history s' sig = Some (lastN (min (nat (HistoryLimit s)) j) (take j vs))
           \<and> length (lastN (min (nat (HistoryLimit s)) j) (take j vs)) = min (nat (HistoryLimit s)) j"
proof -
  have len: "length fss = length vs"
    using assms(3) by (rule list_all2_lengthD)
  have pre: "list_all2 (\<lambda>f v. observedValues q sig f = [v]) (take j fss) (take j vs)"
    using assms(3) by (rule list_all2_takeI)
  have "history s sig = (if ([]::float64 list) = [] then None else Some (lastN (nat (HistoryLimit s)) []))"
    using assms(2) by (simp add: history_def)
  from history_run [OF assms(1) this pre]
  obtain s' where run: "foldOpt (UpdateFromFamilies q) s (take j fss) = Some s'"
    and h: "history s' sig =
      (if [] @ take j vs = [] then None else Some (lastN (nat (HistoryLimit s)) ([] @ take j vs)))"
    by blast
  have "take j vs \<noteq> []"
    using assms(4,5) len by auto
  with h have hist: "history s' sig = Some (lastN (nat (HistoryLimit s)) (take j vs))"
    by simp
  have "lastN (nat (HistoryLimit s)) (take j vs) = lastN (min (nat (HistoryLimit s)) j) (take j vs)"
    using assms(5) len by (auto simp: lastN_def min_def)
  moreover have "length (lastN (min (nat (HistoryLimit s)) j) (take j vs)) = min (nat (HistoryLimit s)) j"
    using assms(5) len by (auto simp: lastN_def min_def)
  ultimately show ?thesis
    using run hist by simp
qed

lemma observedValues_gaugeFamily:
  "observedValues q (GenerateSignature q name (foldl (\<lambda>m p. AList.update (fst p) (snd p) m) [] ls))
     [gaugeFamily name ls x] = [Fin x]"
  by (simp add: observedValues_def observationsOf_def observations_def metricObs_def
        metricValue_def metricLabels_def gaugeFamily_def)

lemmas store_eval =
  UpdateFromFamilies_def updateFromFamily_def updateFromMetric_def updateMetric_def
  appendValue_def fillMissing_def metricLabels_def metricValue_def GenerateSignature_def
  mapGet_def gaugeFamily_def NewStore_def quotePlain_def history_def observations_def
  metricObs_def Let_def

theorem sliding_window_witness:
  "1 \<le> HistoryLimit (NewStore 2)
   \<and> map_of (Metrics (NewStore 2)) ''up{}'' = None
   \<and> list_all2 (\<lambda>f v. observedValues quotePlain ''up{}'' f = [v])
        [[gaugeFamily ''up'' [] 1], [gaugeFamily ''up'' [] 2], [gaugeFamily ''up'' [] 3]]
        [Fin 1, Fin 2, Fin 3]
   \<and> map_option (\<lambda>s'. history s' ''up{}'')
        (foldOpt (UpdateFromFamilies quotePlain) (NewStore 2)
           [[gaugeFamily ''up'' [] 1], [gaugeFamily ''up'' [] 2], [gaugeFamily ''up'' [] 3]])
       = Some (Some [Fin 2, Fin 3])"
proof -
  have sig: "GenerateSignature quotePlain ''up'' [] = ''up{}''"
    by (simp add: GenerateSignature_def)
  have obs: "list_all2 (\<lambda>f v. observedValues quotePlain ''up{}'' f = [v])
        [[gaugeFamily ''up'' [] 1], [gaugeFamily ''up'' [] 2], [gaugeFamily ''up'' [] 3]]
        [Fin 1, Fin 2, Fin 3]"
    using observedValues_gaugeFamily [of quotePlain "''up''" "[]"] by (simp add: sig)
  have lim: "1 \<le> HistoryLimit (NewStore 2)" and fresh: "map_of (Metrics (NewStore 2)) ''up{}'' = None"
    by (simp_all add: NewStore_def)
  from sliding_window [OF lim fresh obs, of 3] have
    "map_option (\<lambda>s'. history s' ''up{}'')
        (foldOpt (UpdateFromFamilies quotePlain) (NewStore 2)
           [[gaugeFamily ''up'' [] 1], [gaugeFamily ''up'' [] 2], [gaugeFamily ''up'' [] 3]])
       = Some (Some [Fin 2, Fin 3])"
    by (auto simp: NewStore_def lastN_def)
  with lim fresh obs show ?thesis by (intro conjI)
qed


subsection \<open>One update cycle\<close>

lemma filter_key_distinct:
  "distinct (map fst xs) \<Longrightarrow>
     filter (\<lambda>p. fst p = k) xs = (case map_of xs k of None \<Rightarrow> [] | Some v \<Rightarrow> [(k, v)])"
proof (induction xs)
  case Nil
  then show ?case by simp
next
  case (Cons p xs)
  then have rest: "filter (\<lambda>p. fst p = k) xs = (case map_of xs k of None \<Rightarrow> [] | Some v \<Rightarrow> [(k, v)])"
    by simp
  show ?case
  proof (cases "fst p = k")
    case True
    with Cons.prems have "map_of xs k = None"
      by (auto simp: map_of_eq_None_iff)
    with True rest show ?thesis by (cases p) auto
  next
    case False
    with rest show ?thesis by (cases p) auto
  qed
qed

lemma appendValue_length:
  "length (Values (appendValue n series v)) =
     (if int (length (Values series)) < n then length (Values series) + 1 else length (Values series))"
  by (simp add: Values_appendValue)

lemma appendValue_last:
  "1 \<le> n \<Longrightarrow> Values (appendValue n series v) \<noteq> [] \<and> last (Values (appendValue n series v)) = v"
  by (cases "Values series") (simp_all add: Values_appendValue)

text \<open>
  C2, as amended. Take a store whose history limit is not negative and a snapshot whose
  observations (its metrics with a gauge, a counter or an untyped value) have pairwise
  distinct signatures. One call of \<^verbatim>\<open>UpdateFromFamilies\<close> returns and has advanced every
  series by exactly one \<^verbatim>\<open>appendValue\<close>: a series whose signature is not observed gets
  NaN, an observed series gets its observed value, a series that is observed for the
  first time starts from the empty history, and no other series appears.
  \<^verbatim>\<open>appendValue\<close> appends and drops the oldest sample when the capacity is exceeded: a
  series below the capacity grows by one sample, a series at the capacity keeps its
  length. With a capacity of at least one, the last sample of every series is the one
  of this cycle.
\<close>

theorem update_cycle:
  assumes "distinct (map fst (observations q fams))"
      and "0 \<le> HistoryLimit s"
  shows "\<exists>s'. UpdateFromFamilies q s fams = Some s'
         \<and> map_of (Metrics s') sig =
           (case map_of (observations q fams) sig of
              None \<Rightarrow> map_option (\<lambda>series. appendValue (HistoryLimit s) series NaN) (map_of (Metrics s) sig)
            | Some (name, labels, v) \<Rightarrow>
                Some (appendValue (HistoryLimit s)
                       (case map_of (Metrics s) sig of
                          Some series \<Rightarrow> series
                        | None \<Rightarrow> \<lparr>Name = name, Labels = labels, Values = []\<rparr>) v))
         \<and> (\<forall>old new. map_of (Metrics s) sig = Some old \<and> map_of (Metrics s') sig = Some new \<longrightarrow>
              length (Values new) =
                (if int (length (Values old)) < HistoryLimit s then length (Values old) + 1
                 else length (Values old)))
         \<and> (\<forall>new. 1 \<le> HistoryLimit s \<and> map_of (Metrics s') sig = Some new \<longrightarrow>
              Values new \<noteq> [] \<and>
              last (Values new) =
                (case map_of (observations q fams) sig of None \<Rightarrow> NaN | Some (name, labels, v) \<Rightarrow> v))"
proof -
  from UpdateFromFamilies_total [OF assms(2), of q fams]
  obtain s' where s': "UpdateFromFamilies q s fams = Some s'" by blast
  note L = lookup_UpdateFromFamilies [OF s']
  have obs: "observationsOf q sig fams =
      (case map_of (observations q fams) sig of None \<Rightarrow> [] | Some r \<Rightarrow> [(sig, r)])"
    unfolding observationsOf_def using assms(1) by (rule filter_key_distinct)
  have main: "map_of (Metrics s') sig =
           (case map_of (observations q fams) sig of
              None \<Rightarrow> map_option (\<lambda>series. appendValue (HistoryLimit s) series NaN) (map_of (Metrics s) sig)
            | Some (name, labels, v) \<Rightarrow>
                Some (appendValue (HistoryLimit s)
                       (case map_of (Metrics s) sig of
                          Some series \<Rightarrow> series
                        | None \<Rightarrow> \<lparr>Name = name, Labels = labels, Values = []\<rparr>) v))"
    by (simp add: L(2) obs observe_def split: option.splits)
  have len: "length (Values new) =
                (if int (length (Values old)) < HistoryLimit s then length (Values old) + 1
                 else length (Values old))"
    if "map_of (Metrics s) sig = Some old" and "map_of (Metrics s') sig = Some new" for old new
    using that main by (auto simp: appendValue_length split: option.splits)
  have tail: "Values new \<noteq> [] \<and>
              last (Values new) =
                (case map_of (observations q fams) sig of None \<Rightarrow> NaN | Some (name, labels, v) \<Rightarrow> v)"
    if "1 \<le> HistoryLimit s" and "map_of (Metrics s') sig = Some new" for new
    using that main by (auto simp: appendValue_last split: option.splits)
  from s' main len tail show ?thesis by blast
qed

theorem update_cycle_witness:
  "distinct (map fst (observations quotePlain [gaugeFamily ''a'' [] 2]))
   \<and> 0 \<le> HistoryLimit
         \<lparr>Metrics = [(''a{}'', \<lparr>Name = ''a'', Labels = [], Values = [Fin 1]\<rparr>),
                     (''b{}'', \<lparr>Name = ''b'', Labels = [], Values = [Fin 7]\<rparr>)],
          HistoryLimit = 5\<rparr>
   \<and> map_option (\<lambda>s'. map_of (Metrics s') ''b{}'')
        (UpdateFromFamilies quotePlain
         \<lparr>Metrics = [(''a{}'', \<lparr>Name = ''a'', Labels = [], Values = [Fin 1]\<rparr>),
                     (''b{}'', \<lparr>Name = ''b'', Labels = [], Values = [Fin 7]\<rparr>)],
          HistoryLimit = 5\<rparr>
         [gaugeFamily ''a'' [] 2])
       = Some (Some \<lparr>Name = ''b'', Labels = [], Values = [Fin 7, NaN]\<rparr>)
   \<and> map_option (\<lambda>s'. map_of (Metrics s') ''a{}'')
        (UpdateFromFamilies quotePlain
         \<lparr>Metrics = [(''a{}'', \<lparr>Name = ''a'', Labels = [], Values = [Fin 1]\<rparr>),
                     (''b{}'', \<lparr>Name = ''b'', Labels = [], Values = [Fin 7]\<rparr>)],
          HistoryLimit = 5\<rparr>
         [gaugeFamily ''a'' [] 2])
       = Some (Some \<lparr>Name = ''a'', Labels = [], Values = [Fin 1, Fin 2]\<rparr>)"
proof -
  let ?s = "\<lparr>Metrics = [(''a{}'', \<lparr>Name = ''a'', Labels = [], Values = [Fin 1]\<rparr>),
                     (''b{}'', \<lparr>Name = ''b'', Labels = [], Values = [Fin 7]\<rparr>)],
          HistoryLimit = 5\<rparr>"
  have o: "observations quotePlain [gaugeFamily ''a'' [] 2] = [(''a{}'', ''a'', [], Fin 2)]"
    by (simp add: store_eval)
  then have d: "distinct (map fst (observations quotePlain [gaugeFamily ''a'' [] 2]))"
    by simp
  have n: "0 \<le> HistoryLimit ?s" by simp
  have b: "map_option (\<lambda>s'. map_of (Metrics s') ''b{}'')
        (UpdateFromFamilies quotePlain ?s [gaugeFamily ''a'' [] 2])
       = Some (Some \<lparr>Name = ''b'', Labels = [], Values = [Fin 7, NaN]\<rparr>)"
    using update_cycle [OF d n, of "''b{}''"] by (auto simp: o appendValue_def)
  have a: "map_option (\<lambda>s'. map_of (Metrics s') ''a{}'')
        (UpdateFromFamilies quotePlain ?s [gaugeFamily ''a'' [] 2])
       = Some (Some \<lparr>Name = ''a'', Labels = [], Values = [Fin 1, Fin 2]\<rparr>)"
    using update_cycle [OF d n, of "''a{}''"] by (auto simp: o appendValue_def)
  from d n b a show ?thesis by (intro conjI)
qed

text \<open>
  C2 as stated fails: the client model allows two metrics with the same name and
  labels in one snapshot. From the store with the histories \<open>[1]\<close> for \<open>a{}\<close> and
  \<open>[7]\<close> for \<open>b{}\<close>, a snapshot that lists \<open>a\<close> twice advances \<open>a{}\<close> by two samples
  and \<open>b{}\<close> by one.
\<close>

theorem update_cycle_counterexample:
  "UpdateFromFamilies quotePlain (NewStore 5) [gaugeFamily ''a'' [] 1, gaugeFamily ''b'' [] 7]
     = Some \<lparr>Metrics = [(''a{}'', \<lparr>Name = ''a'', Labels = [], Values = [Fin 1]\<rparr>),
                        (''b{}'', \<lparr>Name = ''b'', Labels = [], Values = [Fin 7]\<rparr>)],
             HistoryLimit = 5\<rparr>
   \<and> UpdateFromFamilies quotePlain
        \<lparr>Metrics = [(''a{}'', \<lparr>Name = ''a'', Labels = [], Values = [Fin 1]\<rparr>),
                    (''b{}'', \<lparr>Name = ''b'', Labels = [], Values = [Fin 7]\<rparr>)],
         HistoryLimit = 5\<rparr>
        [\<lparr>FamilyName = ''a'',
          FamilyMetric = [\<lparr>Label = [], Gauge = Some (Fin 2), Counter = None, Untyped = None\<rparr>,
                          \<lparr>Label = [], Gauge = Some (Fin 3), Counter = None, Untyped = None\<rparr>]\<rparr>]
     = Some \<lparr>Metrics = [(''a{}'', \<lparr>Name = ''a'', Labels = [], Values = [Fin 1, Fin 2, Fin 3]\<rparr>),
                        (''b{}'', \<lparr>Name = ''b'', Labels = [], Values = [Fin 7, NaN]\<rparr>)],
             HistoryLimit = 5\<rparr>"
proof -
  have first: "UpdateFromFamilies quotePlain (NewStore 5) [gaugeFamily ''a'' [] 1, gaugeFamily ''b'' [] 7]
      = Some \<lparr>Metrics = [(''a{}'', \<lparr>Name = ''a'', Labels = [], Values = [Fin 1]\<rparr>),
                    (''b{}'', \<lparr>Name = ''b'', Labels = [], Values = [Fin 7]\<rparr>)],
         HistoryLimit = 5\<rparr>"
    by (simp add: store_eval)
  have second: "UpdateFromFamilies quotePlain
        \<lparr>Metrics = [(''a{}'', \<lparr>Name = ''a'', Labels = [], Values = [Fin 1]\<rparr>),
                    (''b{}'', \<lparr>Name = ''b'', Labels = [], Values = [Fin 7]\<rparr>)],
         HistoryLimit = 5\<rparr>
        [\<lparr>FamilyName = ''a'',
          FamilyMetric = [\<lparr>Label = [], Gauge = Some (Fin 2), Counter = None, Untyped = None\<rparr>,
                          \<lparr>Label = [], Gauge = Some (Fin 3), Counter = None, Untyped = None\<rparr>]\<rparr>]
      = Some \<lparr>Metrics = [(''a{}'', \<lparr>Name = ''a'', Labels = [], Values = [Fin 1, Fin 2, Fin 3]\<rparr>),
                    (''b{}'', \<lparr>Name = ''b'', Labels = [], Values = [Fin 7, NaN]\<rparr>)],
         HistoryLimit = 5\<rparr>"
    by (simp add: store_eval)
  from first second show ?thesis by (intro conjI)
qed


subsection \<open>Metrics without a simple value\<close>

lemma metricValue_None_iff:
  "metricValue m = None \<longleftrightarrow> \<not> carriesValue m"
  by (auto simp: metricValue_def carriesValue_def)

lemma metricObs_skip:
  "\<not> carriesValue m \<Longrightarrow> metricObs q name m = []"
  by (simp add: metricObs_def metricValue_def carriesValue_def)

lemma metricObs_filter:
  "concat (map (metricObs q name)
      (filter carriesValue ms))
   = concat (map (metricObs q name) ms)"
  by (induction ms) (simp_all add: metricObs_skip)

lemma observations_filter:
  "observations q
     (map (\<lambda>f. f\<lparr>FamilyMetric :=
        filter carriesValue (FamilyMetric f)\<rparr>) fams)
   = observations q fams"
  by (induction fams) (simp_all add: observations_def metricObs_filter)

lemma unobserved:
  assumes "\<forall>f \<in> set fams. \<forall>m \<in> set (FamilyMetric f).
             GenerateSignature q (FamilyName f) (metricLabels m) = sig \<longrightarrow> metricValue m = None"
  shows "sig \<notin> fst ` set (observations q fams)"
proof
  assume "sig \<in> fst ` set (observations q fams)"
  then obtain ob where ob: "ob \<in> set (observations q fams)" "fst ob = sig"
    by auto
  then obtain f m where fm: "f \<in> set fams" "m \<in> set (FamilyMetric f)"
      "ob \<in> set (metricObs q (FamilyName f) m)"
    by (auto simp: observations_def)
  then have "metricValue m \<noteq> None"
      and "fst ob = GenerateSignature q (FamilyName f) (metricLabels m)"
    by (cases "metricValue m"; simp add: metricObs_def)+
  with assms fm ob show False
    by auto
qed

text \<open>
  C10. A metric that carries none of a gauge, a counter and an untyped value is
  skipped: the update is the same as for the snapshot without such metrics. So when
  every metric of the snapshot with the signature \<open>sig\<close> is of that kind, an update
  that returns has created no series for \<open>sig\<close>, and a series that exists for \<open>sig\<close>
  has got NaN appended, as for a signature that is absent from the snapshot. The update
  returns whenever the history limit is not negative.
\<close>

theorem complex_metric_skipped:
  "UpdateFromFamilies q s fams =
     UpdateFromFamilies q s
       (map (\<lambda>f. f\<lparr>FamilyMetric := filter carriesValue (FamilyMetric f)\<rparr>) fams)
   \<and> ((\<forall>f \<in> set fams. \<forall>m \<in> set (FamilyMetric f).
          GenerateSignature q (FamilyName f) (metricLabels m) = sig \<longrightarrow> \<not> carriesValue m) \<longrightarrow>
        (\<forall>s'. UpdateFromFamilies q s fams = Some s' \<longrightarrow>
           map_of (Metrics s') sig =
             map_option (\<lambda>series. appendValue (HistoryLimit s) series NaN) (map_of (Metrics s) sig)))
   \<and> (0 \<le> HistoryLimit s \<longrightarrow> (\<exists>s'. UpdateFromFamilies q s fams = Some s'))"
proof -
  have one: "UpdateFromFamilies q s fams =
     UpdateFromFamilies q s
       (map (\<lambda>f. f\<lparr>FamilyMetric := filter carriesValue (FamilyMetric f)\<rparr>) fams)"
    by (simp only: UpdateFromFamilies_observations observations_filter)
  have two: "map_of (Metrics s') sig =
          map_option (\<lambda>series. appendValue (HistoryLimit s) series NaN) (map_of (Metrics s) sig)"
    if skip: "\<forall>f \<in> set fams. \<forall>m \<in> set (FamilyMetric f).
          GenerateSignature q (FamilyName f) (metricLabels m) = sig \<longrightarrow> \<not> carriesValue m"
      and s': "UpdateFromFamilies q s fams = Some s'" for s'
  proof -
    have "sig \<notin> fst ` set (observations q fams)"
      using skip by (intro unobserved) (simp add: metricValue_None_iff)
    then have "observationsOf q sig fams = []"
      by (simp add: observationsOf_empty_iff)
    then show ?thesis
      by (simp add: lookup_UpdateFromFamilies(2) [OF s'])
  qed
  have three: "\<exists>s'. UpdateFromFamilies q s fams = Some s'" if "0 \<le> HistoryLimit s"
    using that by (rule UpdateFromFamilies_total)
  from one two three show ?thesis by blast
qed

theorem complex_metric_skipped_witness:
  "\<not> carriesValue \<lparr>Label = [], Gauge = None, Counter = None, Untyped = None\<rparr>
   \<and> UpdateFromFamilies quotePlain
        \<lparr>Metrics = [(''h{}'', \<lparr>Name = ''h'', Labels = [], Values = [Fin 4]\<rparr>)], HistoryLimit = 3\<rparr>
        [\<lparr>FamilyName = ''h'',
          FamilyMetric = [\<lparr>Label = [], Gauge = None, Counter = None, Untyped = None\<rparr>]\<rparr>]
     = Some \<lparr>Metrics = [(''h{}'', \<lparr>Name = ''h'', Labels = [], Values = [Fin 4, NaN]\<rparr>)],
             HistoryLimit = 3\<rparr>
   \<and> map_option (\<lambda>s'. map_of (Metrics s') ''h{}'')
        (UpdateFromFamilies quotePlain (NewStore 3)
          [\<lparr>FamilyName = ''h'',
            FamilyMetric = [\<lparr>Label = [], Gauge = None, Counter = None, Untyped = None\<rparr>]\<rparr>])
     = Some None"
proof -
  let ?fams = "[\<lparr>FamilyName = ''h'',
          FamilyMetric = [\<lparr>Label = [], Gauge = None, Counter = None, Untyped = None\<rparr>]\<rparr>]"
  let ?s = "\<lparr>Metrics = [(''h{}'', \<lparr>Name = ''h'', Labels = [], Values = [Fin 4]\<rparr>)], HistoryLimit = 3\<rparr>"
  have c: "\<not> carriesValue \<lparr>Label = [], Gauge = None, Counter = None, Untyped = None\<rparr>"
    by (simp add: carriesValue_def)
  then have skip: "\<forall>f \<in> set ?fams. \<forall>m \<in> set (FamilyMetric f).
          GenerateSignature quotePlain (FamilyName f) (metricLabels m) = ''h{}'' \<longrightarrow>
          \<not> carriesValue m"
    by simp
  have a: "UpdateFromFamilies quotePlain ?s ?fams
     = Some \<lparr>Metrics = [(''h{}'', \<lparr>Name = ''h'', Labels = [], Values = [Fin 4, NaN]\<rparr>)],
             HistoryLimit = 3\<rparr>"
    by (simp add: store_eval)
  note T = complex_metric_skipped [of quotePlain "NewStore 3" ?fams "''h{}''"]
  have lim: "0 \<le> HistoryLimit (NewStore 3)"
    by (simp add: NewStore_def)
  from T [THEN conjunct2, THEN conjunct2, rule_format, OF lim]
  obtain s' where s': "UpdateFromFamilies quotePlain (NewStore 3) ?fams = Some s'"
    by blast
  from T skip s'
  have "map_of (Metrics s') ''h{}'' =
          map_option (\<lambda>series. appendValue (HistoryLimit (NewStore 3)) series NaN)
            (map_of (Metrics (NewStore 3)) ''h{}'')"
    by blast
  then have "map_of (Metrics s') ''h{}'' = None"
    by (simp add: NewStore_def)
  with s' have b: "map_option (\<lambda>s'. map_of (Metrics s') ''h{}'')
        (UpdateFromFamilies quotePlain (NewStore 3) ?fams) = Some None"
    by simp
  from c a b show ?thesis by (intro conjI)
qed


subsection \<open>The delta projection\<close>

lemma fsub_NaN:
  "isNaN a \<or> isNaN b \<Longrightarrow> fsub b a = NaN"
  by (cases a; cases b) auto

lemma deltaStep_eq:
  "deltaStep vals i res = res[i := fsub (vals ! (i + 1)) (vals ! i)]"
  by (auto simp: deltaStep_def Let_def fsub_NaN)

lemma fold_deltaStep:
  "length (fold (deltaStep vals) [0..<k] res) = length res \<and>
   (\<forall>i < length res. fold (deltaStep vals) [0..<k] res ! i =
      (if i < k then fsub (vals ! (i + 1)) (vals ! i) else res ! i))"
proof (induction k)
  case 0
  then show ?case by simp
next
  case (Suc k)
  then show ?case
    by (auto simp: deltaStep_eq nth_list_update less_Suc_eq)
qed

lemma find_snoc:
  "find P (xs @ [x]) = (case find P xs of Some y \<Rightarrow> Some y | None \<Rightarrow> if P x then Some x else None)"
  by (induction xs) auto

lemma fold_histStep:
  "fold (histStep vals) [0..<k] (- 1, - 1) =
     ((case find (\<lambda>i. \<not> isNaN (vals ! i)) [0..<k] of None \<Rightarrow> - 1 | Some f \<Rightarrow> int f),
      (case find (\<lambda>i. \<not> isNaN (vals ! i)) (rev [0..<k]) of None \<Rightarrow> - 1 | Some l \<Rightarrow> int l))"
proof (induction k)
  case 0
  then show ?case by simp
next
  case (Suc k)
  then show ?case
    by (auto simp: histStep_def find_snoc split: option.splits)
qed

text \<open>
  C4. For a series with at least one sample, the mode \<^verbatim>\<open>next\<close> gives a list of the same
  length; at every index but the last one it holds the difference of the next sample
  and the sample at the index, which is NaN when one of the two is NaN; the last index
  holds the last sample. The samples 10, 15, 12 give 5, -3, 12.
\<close>

theorem next_projection:
  assumes "Values s \<noteq> []"
  shows "length (ValuesWithDeltas s ''next'') = length (Values s)
       \<and> (\<forall>i. i + 1 < length (Values s) \<longrightarrow>
            ValuesWithDeltas s ''next'' ! i = fsub (Values s ! (i + 1)) (Values s ! i)
          \<and> (isNaN (Values s ! i) \<or> isNaN (Values s ! (i + 1)) \<longrightarrow>
               ValuesWithDeltas s ''next'' ! i = NaN))
       \<and> ValuesWithDeltas s ''next'' ! (length (Values s) - 1) = Values s ! (length (Values s) - 1)
       \<and> ValuesWithDeltas \<lparr>Name = n, Labels = ls, Values = [Fin 10, Fin 15, Fin 12]\<rparr> ''next''
           = [Fin 5, Fin (- 3), Fin 12]"
proof -
  let ?vs = "Values s"
  let ?res = "fold (deltaStep ?vs) [0..<length ?vs - 1] (replicate (length ?vs) (Fin 0))"
  note F = fold_deltaStep [of ?vs "length ?vs - 1" "replicate (length ?vs) (Fin 0)"]
  have out: "ValuesWithDeltas s ''next'' = ?res[length ?vs - 1 := ?vs ! (length ?vs - 1)]"
    using assms by (simp add: ValuesWithDeltas_def Let_def)
  have len: "length (ValuesWithDeltas s ''next'') = length ?vs"
    using F by (simp add: out)
  have hist: "ValuesWithDeltas s ''next'' ! i = fsub (?vs ! (i + 1)) (?vs ! i)"
    if "i + 1 < length ?vs" for i
  proof -
    from that have "i < length ?vs - 1" "i < length ?vs" by auto
    with F show ?thesis by (simp add: out nth_list_update)
  qed
  have lst: "ValuesWithDeltas s ''next'' ! (length ?vs - 1) = ?vs ! (length ?vs - 1)"
    using assms F by (simp add: out)
  have ex: "ValuesWithDeltas \<lparr>Name = n, Labels = ls, Values = [Fin 10, Fin 15, Fin 12]\<rparr> ''next''
           = [Fin 5, Fin (- 3), Fin 12]"
    by (simp add: ValuesWithDeltas_def Let_def deltaStep_def upt_rec)
  from len hist lst ex show ?thesis
    by (auto simp: fsub_NaN)
qed

theorem next_projection_witness:
  "Values \<lparr>Name = ''up'', Labels = [], Values = [Fin 1, NaN, Fin 4, Fin 6]\<rparr> \<noteq> []
   \<and> length (ValuesWithDeltas \<lparr>Name = ''up'', Labels = [], Values = [Fin 1, NaN, Fin 4, Fin 6]\<rparr> ''next'') = 4
   \<and> ValuesWithDeltas \<lparr>Name = ''up'', Labels = [], Values = [Fin 1, NaN, Fin 4, Fin 6]\<rparr> ''next'' ! 1 = NaN
   \<and> ValuesWithDeltas \<lparr>Name = ''up'', Labels = [], Values = [Fin 1, NaN, Fin 4, Fin 6]\<rparr> ''next'' ! 2 = Fin 2
   \<and> ValuesWithDeltas \<lparr>Name = ''up'', Labels = [], Values = [Fin 1, NaN, Fin 4, Fin 6]\<rparr> ''next'' ! 3 = Fin 6"
proof -
  let ?s = "\<lparr>Name = ''up'', Labels = [], Values = [Fin 1, NaN, Fin 4, Fin 6]\<rparr>"
  have ne: "Values ?s \<noteq> []" by simp
  note T = next_projection [OF ne, of "''up''" "[]"]
  from T have len: "length (ValuesWithDeltas ?s ''next'') = 4" by simp
  from T have hist: "\<forall>i. i + 1 < length (Values ?s) \<longrightarrow>
      ValuesWithDeltas ?s ''next'' ! i = fsub (Values ?s ! (i + 1)) (Values ?s ! i)"
    by blast
  from hist [rule_format, of 1] have i1: "ValuesWithDeltas ?s ''next'' ! 1 = NaN" by simp
  from hist [rule_format, of 2] have i2: "ValuesWithDeltas ?s ''next'' ! 2 = Fin 2" by simp
  from T have i3: "ValuesWithDeltas ?s ''next'' ! 3 = Fin 6" by (simp add: eval_nat_numeral)
  from ne len i1 i2 i3 show ?thesis by (intro conjI)
qed
text \<open>
  C5. For a series with at least one sample, the mode \<^verbatim>\<open>view\<close> agrees with the mode
  \<^verbatim>\<open>next\<close> at every index but the last one. With \<open>first\<close> the earliest and \<open>last_hist\<close>
  the latest index before the last one whose sample is not NaN, the last index holds
  the difference of the samples at \<open>last_hist\<close> and \<open>first\<close> when both exist and differ,
  and NaN otherwise.
\<close>

theorem view_projection:
  assumes "Values s \<noteq> []"
  shows "length (ValuesWithDeltas s ''view'') = length (Values s)
       \<and> (\<forall>i. i + 1 < length (Values s) \<longrightarrow>
            ValuesWithDeltas s ''view'' ! i = ValuesWithDeltas s ''next'' ! i)
       \<and> ValuesWithDeltas s ''view'' ! (length (Values s) - 1) =
           (case firstHist (Values s) of
              None \<Rightarrow> NaN
            | Some first \<Rightarrow>
                (case lastHist (Values s) of
                   None \<Rightarrow> NaN
                 | Some last_hist \<Rightarrow>
                     if first \<noteq> last_hist
                     then fsub (Values s ! last_hist) (Values s ! first)
                     else NaN))"
proof -
  let ?vs = "Values s"
  let ?res = "fold (deltaStep ?vs) [0..<length ?vs - 1] (replicate (length ?vs) (Fin 0))"
  let ?last = "case firstHist ?vs of
              None \<Rightarrow> NaN
            | Some first \<Rightarrow>
                (case lastHist ?vs of
                   None \<Rightarrow> NaN
                 | Some last_hist \<Rightarrow>
                     if first \<noteq> last_hist then fsub (?vs ! last_hist) (?vs ! first) else NaN)"
  note F = fold_deltaStep [of ?vs "length ?vs - 1" "replicate (length ?vs) (Fin 0)"]
  have nxt: "ValuesWithDeltas s ''next'' = ?res[length ?vs - 1 := ?vs ! (length ?vs - 1)]"
    using assms by (simp add: ValuesWithDeltas_def Let_def)
  have out: "ValuesWithDeltas s ''view'' = ?res[length ?vs - 1 := ?last]"
    using assms
    by (simp add: ValuesWithDeltas_def Let_def fold_histStep firstHist_def lastHist_def
          split: option.splits)
  have len: "length (ValuesWithDeltas s ''view'') = length ?vs"
    using F by (simp add: out)
  have hist: "ValuesWithDeltas s ''view'' ! i = ValuesWithDeltas s ''next'' ! i"
    if "i + 1 < length ?vs" for i
    using that by (simp add: out nxt)
  have lst: "ValuesWithDeltas s ''view'' ! (length ?vs - 1) = ?last"
    using assms F by (simp add: out)
  from len hist lst show ?thesis
    by blast
qed

theorem view_projection_witness:
  "Values \<lparr>Name = ''up'', Labels = [], Values = [NaN, Fin 10, Fin 15, NaN, Fin 12]\<rparr> \<noteq> []
   \<and> firstHist [NaN, Fin 10, Fin 15, NaN, Fin 12] = Some 1
   \<and> lastHist [NaN, Fin 10, Fin 15, NaN, Fin 12] = Some 2
   \<and> ValuesWithDeltas \<lparr>Name = ''up'', Labels = [], Values = [NaN, Fin 10, Fin 15, NaN, Fin 12]\<rparr> ''view'' ! 4
       = Fin 5
   \<and> ValuesWithDeltas \<lparr>Name = ''up'', Labels = [], Values = [NaN, Fin 10, Fin 15, NaN, Fin 12]\<rparr> ''view'' ! 1
       = ValuesWithDeltas \<lparr>Name = ''up'', Labels = [], Values = [NaN, Fin 10, Fin 15, NaN, Fin 12]\<rparr> ''next'' ! 1"
proof -
  let ?s = "\<lparr>Name = ''up'', Labels = [], Values = [NaN, Fin 10, Fin 15, NaN, Fin 12]\<rparr>"
  have ne: "Values ?s \<noteq> []" by simp
  have f: "firstHist [NaN, Fin 10, Fin 15, NaN, Fin 12] = Some 1"
    by (simp add: firstHist_def upt_rec)
  have l: "lastHist [NaN, Fin 10, Fin 15, NaN, Fin 12] = Some 2"
    by (simp add: lastHist_def upt_rec)
  note T = view_projection [OF ne]
  from T have i4: "ValuesWithDeltas ?s ''view'' ! 4 = Fin 5"
    by (simp add: f l eval_nat_numeral)
  from T have hist: "\<forall>i. i + 1 < length (Values ?s) \<longrightarrow>
      ValuesWithDeltas ?s ''view'' ! i = ValuesWithDeltas ?s ''next'' ! i"
    by blast
  from hist [rule_format, of 1]
  have i1: "ValuesWithDeltas ?s ''view'' ! 1 = ValuesWithDeltas ?s ''next'' ! 1"
    by simp
  from ne f l i4 i1 show ?thesis by (intro conjI)
qed

text \<open>The samples 10, 15, 12 in the mode \<^verbatim>\<open>view\<close>: the last cell is 15 - 10.\<close>

lemma view_projection_example:
  "ValuesWithDeltas \<lparr>Name = n, Labels = ls, Values = [Fin 10, Fin 15, Fin 12]\<rparr> ''view''
     = [Fin 5, Fin (- 3), Fin 5]"
  by (simp add: ValuesWithDeltas_def Let_def deltaStep_def histStep_def upt_rec)

subsection \<open>The signature\<close>

text \<open>
  The signature does not depend on the order in which the label map lists its pairs:
  the keys are sorted, and every key is looked up in the map.
\<close>

lemma writeLabels_cong:
  "(\<And>k. k \<in> set keys \<Longrightarrow> mapGet l1 k = mapGet l2 k) \<Longrightarrow>
     writeLabels q l1 i keys sb = writeLabels q l2 i keys sb"
  by (induction keys arbitrary: i sb) simp_all

lemma GenerateSignature_permutation:
  assumes "distinct (map fst l1)" and "distinct (map fst l2)" and "set l1 = set l2"
  shows "GenerateSignature q name l1 = GenerateSignature q name l2"
proof -
  have keys: "set (map fst l1) = set (map fst l2)"
    using assms(3) by simp
  have "sort (map fst l1) = sort (map fst l2)"
    using assms(1,2) keys
    by (intro sorted_distinct_set_unique) simp_all
  moreover have "map_of l1 = map_of l2"
    using assms by (simp add: map_of_inject_set)
  then have "mapGet l1 k = mapGet l2 k" for k
    by (simp add: mapGet_def)
  ultimately show ?thesis
    by (simp add: GenerateSignature_def writeLabels_cong [of _ l1 l2])
qed

lemma GenerateSignature_permutation_example:
  "GenerateSignature quotePlain ''up'' [(''job'', ''api''), (''env'', ''prod'')]
     = GenerateSignature quotePlain ''up'' [(''env'', ''prod''), (''job'', ''api'')]"
  by (rule GenerateSignature_permutation) auto

text \<open>
  C3 fails on the code for keys that contain the characters of the format itself: only
  the values are quoted. The label set with the single key \<^verbatim>\<open>a="1",b\<close> and the value
  \<^verbatim>\<open>2\<close>, and the label set with the keys \<^verbatim>\<open>a\<close> and \<^verbatim>\<open>b\<close> and the values \<^verbatim>\<open>1\<close> and \<^verbatim>\<open>2\<close>,
  have the signature \<^verbatim>\<open>x{a="1",b="2"}\<close> under the name \<^verbatim>\<open>x\<close>.
\<close>

theorem signature_collision:
  "GenerateSignature quotePlain ''x'' [(''a='' @ [CHR 0x22] @ ''1'' @ [CHR 0x22] @ '',b'', ''2'')]
     = ''x{a='' @ [CHR 0x22] @ ''1'' @ [CHR 0x22] @ '',b='' @ [CHR 0x22] @ ''2'' @ [CHR 0x22] @ ''}''
   \<and> GenerateSignature quotePlain ''x'' [(''a'', ''1''), (''b'', ''2'')]
     = ''x{a='' @ [CHR 0x22] @ ''1'' @ [CHR 0x22] @ '',b='' @ [CHR 0x22] @ ''2'' @ [CHR 0x22] @ ''}''
   \<and> [(''a='' @ [CHR 0x22] @ ''1'' @ [CHR 0x22] @ '',b'', ''2'')] \<noteq> [(''a'', ''1''), (''b'', ''2'')]"
  by (simp add: GenerateSignature_def mapGet_def quotePlain_def)

subsection \<open>The filter\<close>

lemma stringsIndex_absent:
  "stringsIndex s c = - 1 \<longleftrightarrow> c \<notin> set s"
proof (induction s)
  case Nil
  then show ?case by simp
next
  case (Cons x xs)
  have "stringsIndex xs c \<ge> - 1" for xs
    by (induction xs) (auto simp: Let_def)
  from this [of xs] Cons show ?case
    by (auto simp: Let_def)
qed

lemma stringsIndex_present:
  "c \<in> set s \<Longrightarrow> stringsIndex s c = int (length (takeWhile (\<lambda>x. x \<noteq> c) s))"
  by (induction s) (auto simp: Let_def stringsIndex_absent)

lemma stringsIndex_split:
  assumes "c \<in> set s"
  shows "take (nat (stringsIndex s c)) s = takeWhile (\<lambda>x. x \<noteq> c) s"
    and "drop (nat (stringsIndex s c + 1)) s = tl (dropWhile (\<lambda>x. x \<noteq> c) s)"
proof -
  define n where "n = length (takeWhile (\<lambda>x. x \<noteq> c) s)"
  have idx: "stringsIndex s c = int n"
    using assms unfolding n_def by (rule stringsIndex_present)
  have tw: "takeWhile (\<lambda>x. x \<noteq> c) s = take n s"
    unfolding n_def by (rule takeWhile_eq_take)
  have dw: "dropWhile (\<lambda>x. x \<noteq> c) s = drop n s"
    unfolding n_def by (rule dropWhile_eq_drop)
  show "take (nat (stringsIndex s c)) s = takeWhile (\<lambda>x. x \<noteq> c) s"
    by (simp only: idx tw nat_int)
  have "nat (int n + 1) = Suc n" by simp
  moreover have "drop (Suc n) s = tl (drop n s)"
    by (simp only: drop_Suc tl_drop)
  ultimately show "drop (nat (stringsIndex s c + 1)) s = tl (dropWhile (\<lambda>x. x \<noteq> c) s)"
    by (simp only: idx dw)
qed

lemma anyValueMatches_iff:
  "anyValueMatches L p ls \<longleftrightarrow> (\<exists>v \<in> snd ` set ls. regexpMatch L p v)"
  by (induction ls) auto

text \<open>The label check of the code is the one of the specification.\<close>

lemma labelMatched_labelCheck:
  "labelMatched L p ls = labelCheck L p ls"
proof (cases "CHR ''='' \<in> set p")
  case True
  note sp = stringsIndex_split [OF True]
  have idx: "stringsIndex p (CHR ''='') \<noteq> - 1"
    using True by (simp add: stringsIndex_absent)
  show ?thesis
  proof (cases "tl (dropWhile (\<lambda>x. x \<noteq> CHR ''='') p)")
    case Nil
    with True idx sp show ?thesis
      by (simp add: labelMatched_def labelCheck_def parseLabelPattern_def Let_def
            stringsHasPrefix_def split: option.splits)
  next
    case (Cons x pattern)
    with True idx sp show ?thesis
      by (simp add: labelMatched_def labelCheck_def parseLabelPattern_def Let_def
            stringsHasPrefix_def split: option.splits)
  qed
next
  case False
  then show ?thesis
    by (simp add: labelMatched_def labelCheck_def parseLabelPattern_def Let_def
          stringsIndex_absent anyValueMatches_iff)
qed

lemma set_filterLoop:
  "set (filterLoop L c metrics keys) =
     {series. \<exists>k \<in> set keys. map_of metrics k = Some series \<and> passesFilter L c series}"
  by (induction keys) (auto split: option.splits)

text \<open>
  C6. A series is kept by the filter loop exactly when it passes the filter, and it
  passes exactly when the name check succeeds and, for a label pattern that is not
  empty, the label check succeeds. The pattern \<^verbatim>\<open>env=prod\<close> asks for the label \<^verbatim>\<open>env\<close> with
  the value \<^verbatim>\<open>prod\<close>, the pattern \<^verbatim>\<open>env=~prod.*\<close> for a label \<^verbatim>\<open>env\<close> whose value matches the
  regular expression \<^verbatim>\<open>prod.*\<close>, and the pattern \<^verbatim>\<open>prod\<close> for some label value that matches
  the regular expression \<^verbatim>\<open>prod\<close>.
\<close>

theorem filter_semantics:
  "(passesFilter L c series \<longleftrightarrow>
      nameCheck L (FilterMetric c) (Name series)
      \<and> (FilterLabel c = [] \<or> labelCheck L (FilterLabel c) (Labels series)))
   \<and> set (filteredSeries L m) =
       {series. \<exists>k. map_of (Metrics (store m)) k = Some series \<and> passesFilter L (cfg m) series}
   \<and> (passesFilter L (c\<lparr>FilterLabel := ''env=prod''\<rparr>) series \<longleftrightarrow>
        nameCheck L (FilterMetric c) (Name series) \<and> map_of (Labels series) ''env'' = Some ''prod'')
   \<and> (passesFilter L (c\<lparr>FilterLabel := ''env=~prod.*''\<rparr>) series \<longleftrightarrow>
        nameCheck L (FilterMetric c) (Name series)
        \<and> (\<exists>v. map_of (Labels series) ''env'' = Some v \<and> regexpMatch L ''prod.*'' v))
   \<and> (passesFilter L (c\<lparr>FilterLabel := ''prod''\<rparr>) series \<longleftrightarrow>
        nameCheck L (FilterMetric c) (Name series)
        \<and> (\<exists>v \<in> snd ` set (Labels series). regexpMatch L ''prod'' v))"
proof -
  have pass: "passesFilter L c series \<longleftrightarrow>
      nameCheck L (FilterMetric c) (Name series)
      \<and> (FilterLabel c = [] \<or> labelCheck L (FilterLabel c) (Labels series))" for c
    by (auto simp: passesFilter_def nameCheck_def labelMatched_labelCheck)
  have kept: "set (filteredSeries L m) =
       {series. \<exists>k. map_of (Metrics (store m)) k = Some series \<and> passesFilter L (cfg m) series}"
  proof -
    have "(\<exists>k \<in> set (sort (map fst (Metrics (store m)))).
             map_of (Metrics (store m)) k = Some series \<and> P series)
          \<longleftrightarrow> (\<exists>k. map_of (Metrics (store m)) k = Some series \<and> P series)" for series P
    proof
      assume "\<exists>k \<in> set (sort (map fst (Metrics (store m)))).
             map_of (Metrics (store m)) k = Some series \<and> P series"
      then show "\<exists>k. map_of (Metrics (store m)) k = Some series \<and> P series"
        by blast
    next
      assume "\<exists>k. map_of (Metrics (store m)) k = Some series \<and> P series"
      then obtain k where k: "map_of (Metrics (store m)) k = Some series" "P series"
        by blast
      then have "(k, series) \<in> set (Metrics (store m))"
        by (simp add: map_of_SomeD)
      then have "k \<in> set (sort (map fst (Metrics (store m))))"
        by (simp add: rev_image_eqI)
      with k show "\<exists>k \<in> set (sort (map fst (Metrics (store m)))).
             map_of (Metrics (store m)) k = Some series \<and> P series"
        by blast
    qed
    then show ?thesis
      by (simp add: filteredSeries_def set_filterLoop)
  qed
  have exact: "labelCheck L ''env=prod'' ls \<longleftrightarrow> map_of ls ''env'' = Some ''prod''" for ls
    by (simp add: labelCheck_def parseLabelPattern_def)
  have regex: "labelCheck L ''env=~prod.*'' ls \<longleftrightarrow>
      (\<exists>v. map_of ls ''env'' = Some v \<and> regexpMatch L ''prod.*'' v)" for ls
    by (simp add: labelCheck_def parseLabelPattern_def split: option.splits)
  have legacy: "labelCheck L ''prod'' ls \<longleftrightarrow> (\<exists>v \<in> snd ` set ls. regexpMatch L ''prod'' v)" for ls
    by (simp add: labelCheck_def parseLabelPattern_def)
  show ?thesis
    using pass [of c] kept
      pass [of "c\<lparr>FilterLabel := ''env=prod''\<rparr>"]
      pass [of "c\<lparr>FilterLabel := ''env=~prod.*''\<rparr>"]
      pass [of "c\<lparr>FilterLabel := ''prod''\<rparr>"]
    by (simp add: exact regex legacy)
qed

theorem filter_semantics_witness:
  "passesFilter sampleLib
     \<lparr>URL = ''http://localhost:8080/metrics'', Interval = 5000000000, History = 3,
      LabelMode = ''all'', FilterMetric = [], FilterLabel = ''env=prod'', DeltaMode = ''off''\<rparr>
     \<lparr>Name = ''up'', Labels = [(''env'', ''prod'')], Values = []\<rparr>
   \<and> \<not> passesFilter sampleLib
     \<lparr>URL = ''http://localhost:8080/metrics'', Interval = 5000000000, History = 3,
      LabelMode = ''all'', FilterMetric = [], FilterLabel = ''env=prod'', DeltaMode = ''off''\<rparr>
     \<lparr>Name = ''up'', Labels = [(''env'', ''production'')], Values = []\<rparr>
   \<and> passesFilter sampleLib
     \<lparr>URL = ''http://localhost:8080/metrics'', Interval = 5000000000, History = 3,
      LabelMode = ''all'', FilterMetric = [], FilterLabel = ''prod'', DeltaMode = ''off''\<rparr>
     \<lparr>Name = ''up'', Labels = [(''env'', ''production'')], Values = []\<rparr>"
proof -
  let ?c = "\<lparr>URL = ''http://localhost:8080/metrics'', Interval = 5000000000, History = 3,
      LabelMode = ''all'', FilterMetric = [], FilterLabel = [], DeltaMode = ''off''\<rparr>"
  have a: "passesFilter sampleLib (?c\<lparr>FilterLabel := ''env=prod''\<rparr>)
             \<lparr>Name = ''up'', Labels = [(''env'', ''prod'')], Values = []\<rparr>"
    using filter_semantics [of sampleLib ?c "\<lparr>Name = ''up'', Labels = [(''env'', ''prod'')], Values = []\<rparr>"]
    by (simp add: nameCheck_def)
  have b: "\<not> passesFilter sampleLib (?c\<lparr>FilterLabel := ''env=prod''\<rparr>)
             \<lparr>Name = ''up'', Labels = [(''env'', ''production'')], Values = []\<rparr>"
    using filter_semantics [of sampleLib ?c "\<lparr>Name = ''up'', Labels = [(''env'', ''production'')], Values = []\<rparr>"]
    by (simp add: nameCheck_def)
  have c: "passesFilter sampleLib (?c\<lparr>FilterLabel := ''prod''\<rparr>)
             \<lparr>Name = ''up'', Labels = [(''env'', ''production'')], Values = []\<rparr>"
    using filter_semantics [of sampleLib ?c "\<lparr>Name = ''up'', Labels = [(''env'', ''production'')], Values = []\<rparr>"]
    by (simp add: nameCheck_def sampleLib_def)
  from a b c show ?thesis by simp
qed

subsection \<open>The columns that fit\<close>

text \<open>The loop visits the widths of the value columns from the right.\<close>

lemma fitColumns_greedy:
  "fitColumns cw w i used n = n + int (greedy used w (drop i (rev (tl cw))))"
proof (induction cw w i used n rule: fitColumns.induct)
  case (1 cw w i used n)
  show ?case
  proof (cases "int i < int (length cw) - 1")
    case False
    then have "drop i (rev (tl cw)) = []" by simp
    with False show ?thesis
      by (subst fitColumns.simps) simp
  next
    case True
    then have i: "i < length (tl cw)" by simp
    have idx: "nat (int (length cw) - 1 - int i) = length cw - 1 - i"
      using True by simp
    have "rev (tl cw) ! i = tl cw ! (length (tl cw) - Suc i)"
      using i by (simp add: rev_nth)
    also have "\<dots> = cw ! (length cw - 1 - i)"
      using i by (simp add: nth_tl Suc_diff_Suc)
    finally have hd: "rev (tl cw) ! i = cw ! (length cw - 1 - i)" .
    have split: "drop i (rev (tl cw)) = cw ! (length cw - 1 - i) # drop (Suc i) (rev (tl cw))"
      using i hd by (metis Cons_nth_drop_Suc length_rev)
    show ?thesis
    proof (cases "used + cw ! (length cw - 1 - i) + 1 \<le> w")
      case fits: True
      from "1.IH"(1) True fits idx
      have "fitColumns cw w (i + 1) (used + cw ! (length cw - 1 - i) + 1) (n + 1) =
              n + 1 + int (greedy (used + cw ! (length cw - 1 - i) + 1) w (drop (i + 1) (rev (tl cw))))"
        by simp
      with True fits idx split show ?thesis
        by (subst fitColumns.simps) simp
    next
      case False
      with True idx split show ?thesis
        by (subst fitColumns.simps) simp
    qed
  qed
qed

lemma greedy_mono:
  "w1 \<le> w2 \<Longrightarrow> greedy used w1 ws \<le> greedy used w2 ws"
  by (induction ws arbitrary: used) auto

lemma greedy_le_length:
  "greedy used w ws \<le> length ws"
  by (induction ws arbitrary: used) auto

lemma selectValueCols_greedy:
  "selectValueCols cw w = max 1 (int (greedy (1 + (cw ! 0 + 1)) w (rev (tl cw))))"
proof (cases cw)
  case Nil
  then show ?thesis
    by (simp add: selectValueCols_def fitColumns_greedy)
next
  case (Cons c cs)
  then show ?thesis
    by (simp add: selectValueCols_def fitColumns_greedy Let_def max_def)
qed

lemma selectValueCols_bounds:
  "1 \<le> selectValueCols cw w"
  "selectValueCols cw w \<le> max 1 (int (length cw) - 1)"
  using greedy_le_length [of "1 + (cw ! 0 + 1)" w "rev (tl cw)"]
  by (auto simp: selectValueCols_greedy)

lemma selectValueCols_mono:
  "w1 \<le> w2 \<Longrightarrow> selectValueCols cw w1 \<le> selectValueCols cw w2"
  using greedy_mono [of w1 w2 "1 + (cw ! 0 + 1)" "rev (tl cw)"]
  by (auto simp: selectValueCols_greedy)

text \<open>Trimming keeps the name cell and the last cells.\<close>

lemma trimRow_Cons:
  "0 \<le> n \<Longrightarrow> trimRow n (name # cells) = name # lastN (nat n) cells"
  by (auto simp: trimRow_def lastN_def Let_def nat_diff_distrib' drop_Cons'
        intro!: arg_cong2 [where f = drop])

lemma lastN_suffix:
  "a \<le> b \<Longrightarrow> suffix (lastN a xs) (lastN b xs)"
proof -
  assume "a \<le> b"
  then have "lastN a xs = drop (length xs - b + (min b (length xs) - a)) xs"
    unfolding lastN_def by (intro arg_cong2 [where f = drop]) auto
  also have "\<dots> = drop (min b (length xs) - a) (lastN b xs)"
    by (simp add: lastN_def add.commute)
  finally show ?thesis by (simp add: suffix_drop)
qed

lemma length_lastN:
  "length (lastN n xs) = min n (length xs)"
  by (auto simp: lastN_def)
text \<open>The candidate columns do not depend on the terminal width.\<close>

lemma width_irrelevant:
  "filteredSeries L (m\<lparr>width := w\<rparr>) = filteredSeries L m"
  "maxValueCols (m\<lparr>width := w\<rparr>) = maxValueCols m"
  "allHeaders L (m\<lparr>width := w\<rparr>) = allHeaders L m"
  "buildTableRows L (m\<lparr>width := w\<rparr>) = buildTableRows L m"
proof -
  show "filteredSeries L (m\<lparr>width := w\<rparr>) = filteredSeries L m"
    by (simp add: filteredSeries_def)
  show mv: "maxValueCols (m\<lparr>width := w\<rparr>) = maxValueCols m"
    by (simp add: maxValueCols_def)
  show "allHeaders L (m\<lparr>width := w\<rparr>) = allHeaders L m"
    by (simp add: allHeaders_def headerTitle_def mv)
  have "buildRow L (m\<lparr>width := w\<rparr>) = buildRow L m"
    by (rule ext)
       (simp add: buildRow_def styledName_def valueColumn_def valueCell_def mv Let_def
          split del: if_split cong: if_cong)
  then show "buildTableRows L (m\<lparr>width := w\<rparr>) = buildTableRows L m"
    by (simp add: buildTableRows_def fun_eq_iff)
qed

lemma maxValueCols_pos:
  "1 \<le> maxValueCols m"
  by (simp add: maxValueCols_def)

lemma allHeaders_shape:
  "hd (allHeaders L m) = ''Metric''"
  "length (allHeaders L m) = Suc (nat (maxValueCols m))"
  "allHeaders L m = ''Metric'' # tl (allHeaders L m)"
  by (simp_all add: allHeaders_def)

lemma buildRow_shape:
  "length (buildRow L m series) = Suc (nat (maxValueCols m))"
  "buildRow L m series = hd (buildRow L m series) # tl (buildRow L m series)"
  by (simp_all add: buildRow_def Let_def)

lemma fold_max_length:
  "\<forall>row \<in> set rows. length row \<le> n \<Longrightarrow>
     fold (\<lambda>row maxCols. if length row > maxCols then length row else maxCols) rows n = n"
  by (induction rows) auto

lemma length_calculateColumnWidths:
  "\<forall>row \<in> set rows. length row = length headers \<Longrightarrow>
     length (calculateColumnWidths L headers rows) = length headers"
  by (simp add: calculateColumnWidths_def fold_max_length Let_def)

text \<open>
  The number of value columns that \<open>buildTable\<close> keeps, and \<open>buildTable\<close> in terms
  of it.
\<close>

lemma buildTable_unfold:
  "buildTable L m =
     (if filteredSeries L m = [] then NoMetrics
      else Table
        (trimRow (selectValueCols (calculateColumnWidths L (allHeaders L m)
                    (buildTableRows L m (filteredSeries L m))) (width m)) (allHeaders L m))
        (map (trimRow (selectValueCols (calculateColumnWidths L (allHeaders L m)
                    (buildTableRows L m (filteredSeries L m))) (width m)))
           (buildTableRows L m (filteredSeries L m))))"
  by (simp add: buildTable_def Let_def)

text \<open>
  C7. Take a model and two terminal widths \<open>w1 \<le> w2\<close> for which \<open>buildTable\<close> gives the
  tables with the headers \<open>h1\<close>, \<open>h2\<close> and the rows \<open>r1\<close>, \<open>r2\<close>; the value columns of a table
  are the cells after the name cell. The narrower table has at least one value column
  and at most as many as the wider one. Its headers are \<^verbatim>\<open>Metric\<close> and the last headers of
  the full candidate list, its rows are the name cell and the last cells of the full
  rows, so its value columns are a suffix of those of the wider table. The number of
  value columns is the greedy choice over the column widths from the most recent column
  to the oldest, stopping at the first column that does not fit, and one when not even
  the first fits.
\<close>

theorem column_fit:
  assumes "w1 \<le> w2"
      and "buildTable L (m\<lparr>width := w1\<rparr>) = Table h1 r1"
      and "buildTable L (m\<lparr>width := w2\<rparr>) = Table h2 r2"
  shows "1 \<le> length (tl h1)
       \<and> length (tl h1) \<le> length (tl h2)
       \<and> length (tl h2) \<le> length (tl (allHeaders L m))
       \<and> h1 = ''Metric'' # lastN (length (tl h1)) (tl (allHeaders L m))
       \<and> r1 = map (\<lambda>row. hd row # lastN (length (tl h1)) (tl row))
                 (buildTableRows L m (filteredSeries L m))
       \<and> suffix (tl h1) (tl h2)
       \<and> length r1 = length r2
       \<and> (\<forall>i < length r1. hd (r1 ! i) = hd (r2 ! i) \<and> suffix (tl (r1 ! i)) (tl (r2 ! i))
            \<and> length (tl (r1 ! i)) = length (tl h1))
       \<and> int (length (tl h1)) =
           max 1 (int (greedy
             (1 + (calculateColumnWidths L (allHeaders L m) (buildTableRows L m (filteredSeries L m)) ! 0 + 1))
             w1
             (rev (tl (calculateColumnWidths L (allHeaders L m) (buildTableRows L m (filteredSeries L m)))))))"
proof -
  let ?rows = "buildTableRows L m (filteredSeries L m)"
  let ?hs = "allHeaders L m"
  let ?cw = "calculateColumnWidths L ?hs ?rows"
  let ?N = "nat (maxValueCols m)"
  define n1 where "n1 = selectValueCols ?cw w1"
  define n2 where "n2 = selectValueCols ?cw w2"
  have N: "1 \<le> ?N" using maxValueCols_pos [of m] by simp
  have rows_len: "\<forall>row \<in> set ?rows. length row = length ?hs"
    by (auto simp: buildTableRows_def buildRow_shape(1) allHeaders_shape(2))
  have cw_len: "length ?cw = Suc ?N"
    using length_calculateColumnWidths [OF rows_len] by (simp add: allHeaders_shape(2))
  have Nint: "int ?N = maxValueCols m" "max 1 (int (length ?cw) - 1) = maxValueCols m"
    using maxValueCols_pos [of m] by (simp_all add: cw_len)
  have n1: "1 \<le> n1" "n1 \<le> int ?N"
    unfolding n1_def using selectValueCols_bounds [of ?cw w1] by (simp_all only: Nint)
  have n2: "1 \<le> n2" "n2 \<le> int ?N"
    unfolding n2_def using selectValueCols_bounds [of ?cw w2] by (simp_all only: Nint)
  have n12: "n1 \<le> n2"
    unfolding n1_def n2_def using assms(1) by (rule selectValueCols_mono)
  have ne: "filteredSeries L m \<noteq> []"
    using assms(2) by (auto simp: buildTable_unfold width_irrelevant split: if_splits)
  have t1: "h1 = trimRow n1 ?hs" "r1 = map (trimRow n1) ?rows"
    using assms(2) ne by (simp_all add: buildTable_unfold width_irrelevant n1_def)
  have t2: "h2 = trimRow n2 ?hs" "r2 = map (trimRow n2) ?rows"
    using assms(3) ne by (simp_all add: buildTable_unfold width_irrelevant n2_def)
  have trim_h: "trimRow n ?hs = ''Metric'' # lastN (nat n) (tl ?hs)" if "0 \<le> n" for n
    using trimRow_Cons [OF that, of "''Metric''" "tl ?hs"] allHeaders_shape(3) [of L m] by simp
  have trim_r: "trimRow n row = hd row # lastN (nat n) (tl row)"
    if "0 \<le> n" "row \<in> set ?rows" for n row
  proof -
    from that(2) obtain series where "row = buildRow L m series"
      by (auto simp: buildTableRows_def)
    then have "row = hd row # tl row"
      using buildRow_shape(2) [of L m series] by simp
    with trimRow_Cons [OF that(1), of "hd row" "tl row"] show ?thesis by simp
  qed
  have h1: "h1 = ''Metric'' # lastN (nat n1) (tl ?hs)" and h2: "h2 = ''Metric'' # lastN (nat n2) (tl ?hs)"
    using n1 n2 by (simp_all add: t1 t2 trim_h)
  have len_tl: "length (tl ?hs) = ?N"
    by (simp add: allHeaders_shape(2))
  have nn: "nat n1 \<le> ?N" "nat n2 \<le> ?N" "1 \<le> nat n1" "nat n1 \<le> nat n2"
    using n1 n2 n12 by linarith+
  have "length (lastN (nat n1) (tl ?hs)) = nat n1" "length (lastN (nat n2) (tl ?hs)) = nat n2"
    using nn by (simp_all only: length_lastN len_tl min_absorb1)
  then have l1: "length (tl h1) = nat n1" and l2: "length (tl h2) = nat n2"
    by (simp_all only: h1 h2 list.sel)
  have r1: "r1 = map (\<lambda>row. hd row # lastN (nat n1) (tl row)) ?rows"
    and r2: "r2 = map (\<lambda>row. hd row # lastN (nat n2) (tl row)) ?rows"
    using n1 n2 by (simp_all add: t1 t2 trim_r)
  have rowlen: "length (tl (?rows ! i)) = ?N" if "i < length ?rows" for i
    using that rows_len by (simp add: allHeaders_shape(2))
  have rows: "hd (r1 ! i) = hd (r2 ! i) \<and> suffix (tl (r1 ! i)) (tl (r2 ! i))
            \<and> length (tl (r1 ! i)) = length (tl h1)" if "i < length r1" for i
  proof -
    from that have i: "i < length ?rows" by (simp add: r1)
    have "suffix (lastN (nat n1) (tl (?rows ! i))) (lastN (nat n2) (tl (?rows ! i)))"
      using nn(4) by (rule lastN_suffix)
    moreover have "length (lastN (nat n1) (tl (?rows ! i))) = nat n1"
      using nn(1) by (simp only: length_lastN rowlen [OF i] min_absorb1)
    moreover have "length h1 - Suc 0 = nat n1"
      using l1 by simp
    ultimately show ?thesis
      using i by (simp add: r1 r2)
  qed
  have suf: "suffix (tl h1) (tl h2)"
    using nn(4) by (simp add: h1 h2 lastN_suffix)
  have gr: "int (length (tl h1)) = max 1 (int (greedy (1 + (?cw ! 0 + 1)) w1 (rev (tl ?cw))))"
  proof -
    have "int (length (tl h1)) = n1"
      using n1(1) l1 by linarith
    then show ?thesis
      by (simp only: n1_def selectValueCols_greedy)
  qed
  have "1 \<le> length (tl h1)" "length (tl h1) \<le> length (tl h2)" "length (tl h2) \<le> length (tl ?hs)"
    using nn by (simp_all only: l1 l2 len_tl)
  moreover have "h1 = ''Metric'' # lastN (length (tl h1)) (tl ?hs)"
    unfolding l1 by (rule h1)
  moreover have "r1 = map (\<lambda>row. hd row # lastN (length (tl h1)) (tl row)) ?rows"
    unfolding l1 by (rule r1)
  moreover have "length r1 = length r2"
    by (simp add: r1 r2)
  ultimately show ?thesis
    using suf rows gr by blast
qed
text \<open>The sample model at the widths 17 and 30.\<close>

lemma sample_filteredSeries:
  "filteredSeries sampleLib sampleModel = [\<lparr>Name = ''up'', Labels = [], Values = [NaN, NaN]\<rparr>]"
  by (simp add: sampleModel_def sampleConfig_def filteredSeries_def initialModel_def passesFilter_def)

lemma sample_allHeaders:
  "allHeaders sampleLib sampleModel = [''Metric'', ''-10s'', ''-5s'', ''Curr'']"
  by (simp add: sampleModel_def sampleConfig_def allHeaders_def headerTitle_def maxValueCols_def
        initialModel_def sampleLib_def wrap64_def showNat.simps upt_rec)

lemma sample_rows:
  "buildTableRows sampleLib sampleModel [\<lparr>Name = ''up'', Labels = [], Values = [NaN, NaN]\<rparr>]
     = [[''up'', '''', ''.'', ''.'']]"
  by (simp add: sampleModel_def sampleConfig_def buildTableRows_def buildRow_def styledName_def
        valueColumn_def valueCell_def maxValueCols_def initialModel_def sampleLib_def
        ValuesWithDeltas_def Let_def upt_rec LabelModeHideAll_def)

lemma sample_widths:
  "calculateColumnWidths sampleLib [''Metric'', ''-10s'', ''-5s'', ''Curr''] [[''up'', '''', ''.'', ''.'']]
     = [6, 4, 3, 4]"
  by (simp add: calculateColumnWidths_def columnWidth_def sampleLib_def Let_def upt_rec)

lemma sample_select:
  "selectValueCols [6, 4, 3, 4] 17 = 2"
  "selectValueCols [6, 4, 3, 4] 30 = 3"
  by (simp_all add: selectValueCols_def fitColumns.simps)

theorem column_fit_witness:
  "(17::int) \<le> 30
   \<and> buildTable sampleLib (sampleModel\<lparr>width := 17\<rparr>)
       = Table [''Metric'', ''-5s'', ''Curr''] [[''up'', ''.'', ''.'']]
   \<and> buildTable sampleLib (sampleModel\<lparr>width := 30\<rparr>)
       = Table [''Metric'', ''-10s'', ''-5s'', ''Curr''] [[''up'', '''', ''.'', ''.'']]
   \<and> suffix [''-5s'', ''Curr''] [''-10s'', ''-5s'', ''Curr'']"
proof -
  have le: "(17::int) \<le> 30" by simp
  have narrow: "buildTable sampleLib (sampleModel\<lparr>width := 17\<rparr>)
       = Table [''Metric'', ''-5s'', ''Curr''] [[''up'', ''.'', ''.'']]"
    by (simp add: buildTable_unfold width_irrelevant sample_filteredSeries sample_allHeaders
          sample_rows sample_widths sample_select trimRow_def)
  have wide: "buildTable sampleLib (sampleModel\<lparr>width := 30\<rparr>)
       = Table [''Metric'', ''-10s'', ''-5s'', ''Curr''] [[''up'', '''', ''.'', ''.'']]"
    by (simp add: buildTable_unfold width_irrelevant sample_filteredSeries sample_allHeaders
          sample_rows sample_widths sample_select trimRow_def)
  from column_fit [OF le narrow wide]
  have "suffix (tl [''Metric'', ''-5s'', ''Curr'']) (tl [''Metric'', ''-10s'', ''-5s'', ''Curr''])"
    by blast
  then have "suffix [''-5s'', ''Curr''] [''-10s'', ''-5s'', ''Curr'']"
    by simp
  with le narrow wide show ?thesis by (intro conjI)
qed


subsection \<open>Fetch failures\<close>

text \<open>
  C8, as amended. Handling a fetch failure returns without a panic: it records the
  error as the connection error, marks the model as not connected, changes neither
  the store nor any other field, and returns no command, so it does not quit. Every
  tick schedules the next tick; the tick after the failure issues a new fetch exactly
  when the model is not paused.
\<close>

theorem fetch_failure:
  "Update L now m (ErrorMsg e) = Some (m\<lparr>connectionError := Some e, isConnected := False\<rparr>, [])
   \<and> connectionError (m\<lparr>connectionError := Some e, isConnected := False\<rparr>) = Some e
   \<and> store (m\<lparr>connectionError := Some e, isConnected := False\<rparr>) = store m
   \<and> err (m\<lparr>connectionError := Some e, isConnected := False\<rparr>) = err m
   \<and> isPaused (m\<lparr>connectionError := Some e, isConnected := False\<rparr>) = isPaused m
   \<and> Quit \<notin> set ([] :: Cmd list)
   \<and> Update L now' (m\<lparr>connectionError := Some e, isConnected := False\<rparr>) TickMsg
       = Some (m\<lparr>connectionError := Some e, isConnected := False\<rparr>,
               if isPaused m then [TickCmd] else [FetchCmd, TickCmd])"
  by simp

theorem fetch_failure_witness:
  "Update sampleLib 7 sampleModel (ErrorMsg ''connection refused'')
     = Some (sampleModel\<lparr>connectionError := Some ''connection refused'', isConnected := False\<rparr>, [])
   \<and> Update sampleLib 12
         (sampleModel\<lparr>connectionError := Some ''connection refused'', isConnected := False\<rparr>) TickMsg
     = Some (sampleModel\<lparr>connectionError := Some ''connection refused'', isConnected := False\<rparr>,
             [FetchCmd, TickCmd])"
proof -
  have "\<not> isPaused sampleModel"
    by (simp add: sampleModel_def initialModel_def)
  with fetch_failure [of sampleLib 7 sampleModel "''connection refused''" 12]
  show ?thesis by simp
qed

text \<open>
  C8 as stated fails for a paused model: the user pauses while the first fetch is under
  way, the fetch fails, and the next tick only schedules the following tick.
\<close>

theorem fetch_failure_counterexample:
  "Update sampleLib 1 (initialModel sampleConfig) (KeyMsg ''p'')
     = Some ((initialModel sampleConfig)\<lparr>isPaused := True\<rparr>, [])
   \<and> Update sampleLib 2 ((initialModel sampleConfig)\<lparr>isPaused := True\<rparr>)
         (ErrorMsg ''connection refused'')
     = Some ((initialModel sampleConfig)
               \<lparr>isPaused := True, connectionError := Some ''connection refused'', isConnected := False\<rparr>, [])
   \<and> Update sampleLib 3
         ((initialModel sampleConfig)
            \<lparr>isPaused := True, connectionError := Some ''connection refused'', isConnected := False\<rparr>)
         TickMsg
     = Some ((initialModel sampleConfig)
               \<lparr>isPaused := True, connectionError := Some ''connection refused'', isConnected := False\<rparr>,
             [TickCmd])"
  by (simp add: initialModel_def)

subsection \<open>Start-up\<close>





end
